theory Spec2Isabelle
  imports
    Complex_Main
    "HOL-Library.Multiset"
    "HOL-Library.Char_ord"
    "HOL-Library.List_Lexorder"
    "HOL-Library.Product_Lexorder"
    "HOL-Library.Sublist"
    "HOL-Library.Log_Nat"
begin

section \<open>JavaScript strings\<close>

text \<open>
  A \<^typ>\<open>string\<close> is a list of code units below 256 (the Latin-1 range of a JavaScript
  string). \<open>String.prototype.trim\<close> removes the white space and line terminators of that
  range from both ends; \<open>toLowerCase\<close> maps \<open>A\<close>--\<open>Z\<close> and the capital letters
  \<open>U+00C0\<close>--\<open>U+00DE\<close> (without the multiplication sign \<open>U+00D7\<close>) to their small
  forms, 32 code units higher.
\<close>

definition isWhiteSpace :: "char \<Rightarrow> bool" where
  "isWhiteSpace c \<longleftrightarrow>
     c \<in> set [CHR 0x09, CHR 0x0A, CHR 0x0B, CHR 0x0C, CHR 0x0D, CHR 0x20, CHR 0xA0]"

definition trim :: "string \<Rightarrow> string" where
  "trim s = rev (dropWhile isWhiteSpace (rev (dropWhile isWhiteSpace s)))"

definition toLowerChar :: "char \<Rightarrow> char" where
  "toLowerChar c =
     (let n = (of_char c :: nat)
      in if (65 \<le> n \<and> n \<le> 90) \<or> (192 \<le> n \<and> n \<le> 222 \<and> n \<noteq> 215)
         then char_of (n + 32) else c)"

definition toLowerCase :: "string \<Rightarrow> string" where
  "toLowerCase s = map toLowerChar s"

text \<open>
  \<open>Array.prototype.sort\<close> with a comparator is a stable sort: an element moves in front
  of another one only when the comparator puts it strictly before or the two compare
  equal and it already stood in front. For a comparator that orders consistently, as a
  collation does, every stable sort has the result of the insertion sort below.
\<close>

fun insertSorted :: "('a \<Rightarrow> 'a \<Rightarrow> int) \<Rightarrow> 'a \<Rightarrow> 'a list \<Rightarrow> 'a list" where
  "insertSorted cmp x [] = [x]"
| "insertSorted cmp x (y # ys) =
     (if cmp x y \<le> 0 then x # y # ys else y # insertSorted cmp x ys)"

definition sortWith :: "('a \<Rightarrow> 'a \<Rightarrow> int) \<Rightarrow> 'a list \<Rightarrow> 'a list" where
  "sortWith cmp xs = foldr (insertSorted cmp) xs []"

text \<open>\<open>Array.prototype.join\<close> with a separator.\<close>

fun join :: "string \<Rightarrow> string list \<Rightarrow> string" where
  "join sep [] = []"
| "join sep [x] = x"
| "join sep (x # y # ys) = x @ sep @ join sep (y # ys)"

section \<open>Training examples and their JSON text\<close>

record message =
  role :: string
  content :: string

record example =
  messages :: "message list"

text \<open>
  \<open>JSON.stringify\<close> of a string: the quotation mark and the reverse solidus are escaped,
  the control characters below \<open>U+0020\<close> are written with their short escape or as
  \<open>\u00XX\<close>, every other code unit stands for itself.
\<close>

definition hexDigit :: "nat \<Rightarrow> char" where
  "hexDigit n = ''0123456789abcdef'' ! (n mod 16)"

definition quoteChar :: "char \<Rightarrow> string" where
  "quoteChar c =
     (if c = CHR 0x22 then [CHR 0x5C, CHR 0x22]
      else if c = CHR 0x5C then [CHR 0x5C, CHR 0x5C]
      else if c = CHR 0x08 then [CHR 0x5C, CHR ''b'']
      else if c = CHR 0x09 then [CHR 0x5C, CHR ''t'']
      else if c = CHR 0x0A then [CHR 0x5C, CHR ''n'']
      else if c = CHR 0x0C then [CHR 0x5C, CHR ''f'']
      else if c = CHR 0x0D then [CHR 0x5C, CHR ''r'']
      else if (of_char c :: nat) < 32
        then [CHR 0x5C, CHR ''u'', CHR ''0'', CHR ''0'',
              hexDigit ((of_char c :: nat) div 16), hexDigit (of_char c :: nat)]
      else [c])"

definition quoteJSONString :: "string \<Rightarrow> string" where
  "quoteJSONString s = [CHR 0x22] @ concat (map quoteChar s) @ [CHR 0x22]"

definition stringifyMessage :: "message \<Rightarrow> string" where
  "stringifyMessage m =
     ''{'' @ quoteJSONString ''role'' @ '':'' @ quoteJSONString (role m) @ '','' @
     quoteJSONString ''content'' @ '':'' @ quoteJSONString (content m) @ ''}''"

definition stringifyExample :: "example \<Rightarrow> string" where
  "stringifyExample e =
     ''{'' @ quoteJSONString ''messages'' @ '':['' @
     join '','' (map stringifyMessage (messages e)) @ '']}''"

section \<open>Uniqueness index\<close>

text \<open>
  Two functions that the fingerprint calls belong to the JavaScript runtime and not to this
  repository: the digest \<open>createHash('sha256').update(s).digest('hex')\<close> of the \<open>crypto\<close>
  module, and the collation \<open>String.prototype.localeCompare\<close>, whose result is negative,
  zero or positive as the receiver sorts before, with or after the argument in the locale
  of the process. Nothing is assumed about either of them: the runtime is a parameter of
  everything that fingerprints.
\<close>

record runtime =
  sha256 :: "string \<Rightarrow> string"
  localeCompare :: "string \<Rightarrow> string \<Rightarrow> int"

definition normalizeMessage :: "message \<Rightarrow> message" where
  "normalizeMessage msg = \<lparr>role = role msg, content = toLowerCase (trim (content msg))\<rparr>"

definition compareMessages :: "runtime \<Rightarrow> message \<Rightarrow> message \<Rightarrow> int" where
  "compareMessages rt a b =
     (if role a \<noteq> role b then localeCompare rt (role a) (role b)
      else localeCompare rt (content a) (content b))"

definition createExampleHash :: "runtime \<Rightarrow> example \<Rightarrow> string" where
  "createExampleHash rt ex =
     (let normalized =
            \<lparr>messages = sortWith (compareMessages rt) (map normalizeMessage (messages ex))\<rparr>;
          jsonString = stringifyExample normalized
      in sha256 rt jsonString)"

section \<open>Batch generator\<close>

text \<open>
  \<open>String.prototype.replace\<close> with a global pattern that matches a fixed non-empty text
  and has no capture groups. In the replacement text \<open>$$\<close> stands for a dollar sign,
  \<open>$&\<close> for the matched text, \<open>$`\<close> and \<open>$'\<close> for the subject before and after the
  match; every other \<open>$\<close> stands for itself.
\<close>

fun expandReplacement :: "string \<Rightarrow> string \<Rightarrow> string \<Rightarrow> string \<Rightarrow> string" where
  "expandReplacement matched preceding following (c # d # cs) =
     (if c = CHR ''$'' \<and> d = CHR ''$'' then CHR ''$'' # expandReplacement matched preceding following cs
      else if c = CHR ''$'' \<and> d = CHR ''&'' then matched @ expandReplacement matched preceding following cs
      else if c = CHR ''$'' \<and> d = CHR 0x60 then preceding @ expandReplacement matched preceding following cs
      else if c = CHR ''$'' \<and> d = CHR 0x27 then following @ expandReplacement matched preceding following cs
      else c # expandReplacement matched preceding following (d # cs))"
| "expandReplacement matched preceding following cs = cs"

fun replaceGlobal :: "string \<Rightarrow> string \<Rightarrow> string \<Rightarrow> string \<Rightarrow> string" where
  "replaceGlobal pat repl preceding [] = []"
| "replaceGlobal pat repl preceding (c # cs) =
     (if pat \<noteq> [] \<and> prefix pat (c # cs)
      then expandReplacement pat preceding (drop (length pat - 1) cs) repl @
           replaceGlobal pat repl (preceding @ pat) (drop (length pat - 1) cs)
      else c # replaceGlobal pat repl (preceding @ [c]) cs)"

definition questions :: "string list" where
  "questions =
     [''What is {topic}?'',
      ''Tell me about {topic}'',
      ''Can you explain {topic}?'',
      ''How does {topic} work?'',
      ''What are the benefits of {topic}?'']"

definition fallbackExample :: "string \<Rightarrow> string \<Rightarrow> nat \<Rightarrow> example" where
  "fallbackExample title description i =
     (let question = replaceGlobal ''{topic}'' title [] (questions ! (i mod length questions));
          answer = description @ '' This is what '' @ title @ '' is about.''
      in \<lparr>messages = [\<lparr>role = ''user'', content = question\<rparr>,
                      \<lparr>role = ''assistant'', content = answer\<rparr>]\<rparr>)"

definition generateFallbackExamples :: "string \<Rightarrow> string \<Rightarrow> int \<Rightarrow> example list" where
  "generateFallbackExamples title description cnt =
     map (fallbackExample title description) [0 ..< nat cnt]"

text \<open>
  The chat-completion request of \<open>generateBatch\<close> and the parsing of its answer belong
  to the environment; the model takes their outcome. A call is \<open>Unusable\<close> when the
  request throws or is aborted after 15 seconds, when the status is not 200, when the
  answer carries no content, or when no JSON value can be read from the content by any of
  the three parsing attempts. Otherwise the content was read as a JSON value: an array,
  an object (of which only the members \<open>examples\<close> and \<open>data\<close> are looked at, and only
  when they are arrays), or something else.

  An entry of such an array counts as an example when it has a \<open>messages\<close> array
  (\<open>None\<close> otherwise). An element of \<open>messages\<close> is \<open>NullMessage\<close> when it is \<open>null\<close>,
  on which reading \<open>msg.role\<close> throws; otherwise it has an optional \<open>role\<close> and an
  optional \<open>content\<close>, both strings.
\<close>

datatype raw_message = NullMessage | RawMessage "string option" "string option"

type_synonym raw_example = "raw_message list option"

datatype parsed_content =
    JsonArray "raw_example list"
  | JsonObject "raw_example list option" "raw_example list option"
  | JsonOther

datatype completion = Unusable | Content parsed_content

text \<open>\<open>x || d\<close> on an optional string: the absent and the empty string give \<open>d\<close>.\<close>

definition orElse :: "string option \<Rightarrow> string \<Rightarrow> string" where
  "orElse x d = (case x of None \<Rightarrow> d | Some s \<Rightarrow> if s = [] then d else s)"

definition extractExamples :: "parsed_content \<Rightarrow> raw_example list" where
  "extractExamples parsedContent =
     (case parsedContent of
        JsonArray xs \<Rightarrow> xs
      | JsonObject (Some xs) _ \<Rightarrow> xs
      | JsonObject None (Some xs) \<Rightarrow> xs
      | JsonObject None None \<Rightarrow> []
      | JsonOther \<Rightarrow> [])"

definition normalizeRaw :: "raw_message \<Rightarrow> message" where
  "normalizeRaw msg =
     (case msg of
        RawMessage r c \<Rightarrow> \<lparr>role = orElse r ''user'', content = orElse c []\<rparr>
      | NullMessage \<Rightarrow> \<lparr>role = ''user'', content = []\<rparr>)"

definition keepMessage :: "message \<Rightarrow> bool" where
  "keepMessage msg \<longleftrightarrow>
     content msg \<noteq> [] \<and> role msg \<in> set [''user'', ''assistant'', ''system'']"

definition hasRole :: "string \<Rightarrow> message list \<Rightarrow> bool" where
  "hasRole r ms \<longleftrightarrow> (\<exists>m \<in> set ms. role m = r)"

text \<open>
  The validation loop; \<open>None\<close> is the \<open>TypeError\<close> of a \<open>null\<close> message, which the
  \<open>catch\<close> of \<open>generateBatch\<close> answers with the fallback examples.
\<close>

fun validateExamples :: "raw_example list \<Rightarrow> example list option" where
  "validateExamples [] = Some []"
| "validateExamples (None # rest) = validateExamples rest"
| "validateExamples (Some msgs # rest) =
     (if NullMessage \<in> set msgs then None
      else
        let normalized = filter keepMessage (map normalizeRaw msgs);
            hasUser = hasRole ''user'' normalized;
            hasAssistant = hasRole ''assistant'' normalized
        in case validateExamples rest of
             None \<Rightarrow> None
           | Some validExamples \<Rightarrow>
               if hasUser \<and> hasAssistant \<and> length normalized \<ge> 2
               then Some (\<lparr>messages = normalized\<rparr> # validExamples)
               else Some validExamples)"

definition generateBatch ::
  "string \<Rightarrow> string \<Rightarrow> int \<Rightarrow> string \<Rightarrow> completion \<Rightarrow> example list" where
  "generateBatch title description cnt datasetType answer =
     (case answer of
        Unusable \<Rightarrow> generateFallbackExamples title description cnt
      | Content parsedContent \<Rightarrow>
          (case validateExamples (extractExamples parsedContent) of
             None \<Rightarrow> generateFallbackExamples title description cnt
           | Some validExamples \<Rightarrow> validExamples))"

text \<open>The number of entries that an answer offers to the validation loop.\<close>

definition offered :: "completion \<Rightarrow> nat" where
  "offered answer =
     (case answer of
        Unusable \<Rightarrow> 0
      | Content parsedContent \<Rightarrow> length (extractExamples parsedContent))"

section \<open>Dataset generation job runner\<close>

text \<open>
  The row of a generation job in the record store, with the fields that the runner reads
  or writes. \<open>ds_target_examples\<close> is the member \<open>target_examples\<close> of the metadata,
  \<open>ds_error\<close> the member \<open>message\<close> of the error object. The progress percentage and
  the time stamps, which nothing in the runner reads back, are left out.
\<close>

datatype generation_status = GenPending | GenProcessing | GenCompleted | GenFailed

record dataset =
  ds_title :: string
  ds_description :: "string option"
  ds_dataset_type :: string
  ds_status :: generation_status
  ds_current_batch :: int
  ds_total_batches :: int
  ds_generated_count :: int
  ds_target_examples :: "int option"
  ds_content :: "string option"
  ds_training_content :: "string option"
  ds_test_content :: "string option"
  ds_num_examples :: "nat option"
  ds_training_examples_count :: "nat option"
  ds_test_examples_count :: "nat option"
  ds_error :: "string option"

text \<open>
  What the runner meets outside itself: the API key of the process environment; for the
  \<open>n\<close>-th call of the record store, whether the store rejects it and with which message;
  for the \<open>n\<close>-th chat-completion call, its outcome; and the set that
  \<open>getAllExistingExampleHashes\<close> returns when the run loads it.
\<close>

record environment =
  OPENAI_API_KEY :: "string option"
  storeRejects :: "nat \<Rightarrow> string option"
  completions :: "nat \<Rightarrow> completion"
  existingHashes :: "string set"

text \<open>
  The state that a run threads through: the job's row (\<open>None\<close> when the store has no
  row with the job's identifier) and the numbers of store and completion calls made.
\<close>

record world =
  row :: "dataset option"
  storeCalls :: nat
  completionCalls :: nat

definition recordNotFound :: string where
  "recordNotFound = ''Record to update not found.''"

text \<open>\<open>prisma.dataset.update\<close>: throws when the store rejects the call or has no such row.\<close>

definition datasetUpdate ::
  "environment \<Rightarrow> (dataset \<Rightarrow> dataset) \<Rightarrow> world \<Rightarrow> (string + dataset) \<times> world" where
  "datasetUpdate env change w =
     (let w' = w\<lparr>storeCalls := Suc (storeCalls w)\<rparr>
      in case storeRejects env (storeCalls w) of
           Some err \<Rightarrow> (Inl err, w')
         | None \<Rightarrow>
             (case row w of
                None \<Rightarrow> (Inl recordNotFound, w')
              | Some d \<Rightarrow> (Inr (change d), w'\<lparr>row := Some (change d)\<rparr>)))"

text \<open>\<open>prisma.dataset.findUnique\<close>: throws when the store rejects the call.\<close>

definition datasetFindUnique ::
  "environment \<Rightarrow> world \<Rightarrow> (string + dataset option) \<times> world" where
  "datasetFindUnique env w =
     (let w' = w\<lparr>storeCalls := Suc (storeCalls w)\<rparr>
      in case storeRejects env (storeCalls w) of
           Some err \<Rightarrow> (Inl err, w')
         | None \<Rightarrow> (Inr (row w), w'))"

definition callGenerateBatch ::
  "environment \<Rightarrow> dataset \<Rightarrow> int \<Rightarrow> world \<Rightarrow> example list \<times> world" where
  "callGenerateBatch env job cnt w =
     (generateBatch (ds_title job) (orElse (ds_description job) []) cnt (ds_dataset_type job)
        (completions env (completionCalls w)),
      w\<lparr>completionCalls := Suc (completionCalls w)\<rparr>)"

text \<open>The first pass over a generated batch: every example with a new fingerprint is kept.\<close>

fun keepUnique ::
  "runtime \<Rightarrow> string set \<Rightarrow> example list \<Rightarrow> example list \<Rightarrow> string set
     \<Rightarrow> example list \<times> string set" where
  "keepUnique rt existing [] uniqueBatchExamples currentJobHashes =
     (uniqueBatchExamples, currentJobHashes)"
| "keepUnique rt existing (ex # rest) uniqueBatchExamples currentJobHashes =
     (let hash = createExampleHash rt ex
      in if hash \<in> existing \<or> hash \<in> currentJobHashes
         then keepUnique rt existing rest uniqueBatchExamples currentJobHashes
         else keepUnique rt existing rest
                (uniqueBatchExamples @ [ex]) (insert hash currentJobHashes))"

text \<open>The pass over a regenerated batch, which stops as soon as the batch is full.\<close>

fun topUp ::
  "runtime \<Rightarrow> string set \<Rightarrow> int \<Rightarrow> example list \<Rightarrow> example list \<Rightarrow> string set
     \<Rightarrow> example list \<times> string set" where
  "topUp rt existing batchCount [] uniqueBatchExamples currentJobHashes =
     (uniqueBatchExamples, currentJobHashes)"
| "topUp rt existing batchCount (ex # rest) uniqueBatchExamples currentJobHashes =
     (let hash = createExampleHash rt ex
      in if hash \<in> existing \<or> hash \<in> currentJobHashes
         then topUp rt existing batchCount rest uniqueBatchExamples currentJobHashes
         else if int (length (uniqueBatchExamples @ [ex])) \<ge> batchCount
         then (uniqueBatchExamples @ [ex], insert hash currentJobHashes)
         else topUp rt existing batchCount rest
                (uniqueBatchExamples @ [ex]) (insert hash currentJobHashes))"

text \<open>The regeneration loop: at most three further attempts, each asking for the shortfall.\<close>

function retry ::
  "environment \<Rightarrow> runtime \<Rightarrow> dataset \<Rightarrow> int \<Rightarrow> nat \<Rightarrow> example list \<Rightarrow> string set
     \<Rightarrow> world \<Rightarrow> example list \<times> string set \<times> world" where
  "retry env rt job batchCount attempts uniqueBatchExamples currentJobHashes w =
     (if int (length uniqueBatchExamples) < batchCount \<and> attempts < 3
      then
        let needed = batchCount - int (length uniqueBatchExamples);
            (additionalExamples, w') = callGenerateBatch env job needed w;
            (unique', hashes') =
               topUp rt (existingHashes env) batchCount additionalExamples
                 uniqueBatchExamples currentJobHashes
        in retry env rt job batchCount (attempts + 1) unique' hashes' w'
      else (uniqueBatchExamples, currentJobHashes, w))"
  by pat_completeness auto
termination
  by (relation "measure (\<lambda>(env, rt, job, batchCount, attempts, rest). 3 - attempts)") auto

text \<open>
  One turn of the batch loop. The update of the progress fields is inside the \<open>try\<close> of
  the loop body: when it throws, the examples of the batch stay in \<open>allExamples\<close> and the
  loop goes on with the next batch.
\<close>

definition progressData :: "int \<Rightarrow> int \<Rightarrow> dataset \<Rightarrow> dataset" where
  "progressData currentBatch generatedCount d =
     d\<lparr>ds_current_batch := currentBatch, ds_generated_count := generatedCount\<rparr>"

definition processBatch ::
  "environment \<Rightarrow> runtime \<Rightarrow> dataset \<Rightarrow> int \<Rightarrow> int \<Rightarrow> example list \<Rightarrow> string set
     \<Rightarrow> world \<Rightarrow> example list \<times> string set \<times> world" where
  "processBatch env rt job batch batchCount allExamples currentJobHashes w =
     (let (batchExamples, w1) = callGenerateBatch env job batchCount w;
          (unique1, hashes1) =
             keepUnique rt (existingHashes env) batchExamples [] currentJobHashes;
          (uniqueBatchExamples, hashes2, w2) =
             retry env rt job batchCount 0 unique1 hashes1 w1;
          allExamples' = allExamples @ uniqueBatchExamples;
          (updated, w3) =
             datasetUpdate env (progressData (batch + 1) (int (length allExamples'))) w2
      in (allExamples', hashes2, w3))"

function batches ::
  "environment \<Rightarrow> runtime \<Rightarrow> dataset \<Rightarrow> int \<Rightarrow> int \<Rightarrow> example list \<Rightarrow> string set
     \<Rightarrow> world \<Rightarrow> example list \<times> string set \<times> world" where
  "batches env rt job targetExamples batch allExamples currentJobHashes w =
     (if batch < ds_total_batches job
      then
        let batchCount = min 5 (targetExamples - batch * 5)
        in if batchCount \<le> 0 then (allExamples, currentJobHashes, w)
           else
             (case processBatch env rt job batch batchCount allExamples currentJobHashes w of
                (allExamples', hashes', w') \<Rightarrow>
                  batches env rt job targetExamples (batch + 1) allExamples' hashes' w')
      else (allExamples, currentJobHashes, w))"
  by pat_completeness auto
termination
  by (relation "measure (\<lambda>(env, rt, job, targetExamples, batch, rest).
        nat (ds_total_batches job - batch))") auto

text \<open>
  \<open>convertToJSONL\<close>: every example is written with its contents trimmed and without the
  messages that are empty after trimming; an example that is then left without a user
  message, without an assistant message or with fewer than two messages is skipped.
\<close>

definition cleanExample :: "example \<Rightarrow> example" where
  "cleanExample ex =
     \<lparr>messages =
        filter (\<lambda>msg. length (content msg) > 0)
          (map (\<lambda>msg. \<lparr>role = role msg, content = trim (content msg)\<rparr>) (messages ex))\<rparr>"

definition skipped :: "example \<Rightarrow> bool" where
  "skipped cleaned \<longleftrightarrow>
     (let hasUser = hasRole ''user'' (messages cleaned);
          hasAssistant = hasRole ''assistant'' (messages cleaned)
      in \<not> hasUser \<or> \<not> hasAssistant \<or> length (messages cleaned) < 2)"

definition writtenExamples :: "example list \<Rightarrow> example list" where
  "writtenExamples examples = filter (\<lambda>cleaned. \<not> skipped cleaned) (map cleanExample examples)"

definition convertToJSONL :: "example list \<Rightarrow> string" where
  "convertToJSONL examples = join [CHR 0x0A] (map stringifyExample (writtenExamples examples))"

text \<open>
  \<open>validateJSONL\<close> refuses a text that is empty after trimming and a text with a line
  that \<open>JSON.parse\<close> rejects. It is applied to a result of \<open>convertToJSONL\<close>, whose lines
  are results of \<open>JSON.stringify\<close> (a line feed inside a content is written as \<open>\n\<close>),
  so that the second test never fails there.
\<close>

definition validateJSONL :: "string \<Rightarrow> bool" where
  "validateJSONL jsonl \<longleftrightarrow> jsonl \<noteq> [] \<and> trim jsonl \<noteq> []"

text \<open>
  The validation filter before the split keeps an example that has a \<open>messages\<close> array
  and survives \<open>JSON.stringify\<close> followed by \<open>JSON.parse\<close>: every value of type
  \<^typ>\<open>example\<close> does.
\<close>

definition wellFormed :: "example \<Rightarrow> bool" where
  "wellFormed ex \<longleftrightarrow> True"

text \<open>
  \<open>Math.floor(validatedExamples.length * 0.8)\<close>, with the numbers of the program read as
  real numbers.
\<close>

definition trainingCountOf :: "nat \<Rightarrow> nat" where
  "trainingCountOf n = nat \<lfloor>real n * 0.8\<rfloor>"

text \<open>
  The program computes the product in double precision. A number is written here as its
  numerator over \<open>2 ^ 53\<close>: \<open>0.8\<close> is the double \<open>7205759403792794 / 2 ^ 53\<close>, a length
  is a double exactly, and the product is rounded to 53 significant bits, to the nearest such
  number and to the even one of two nearest. \<open>doubleTrainingCount\<close> is the computation of the
  program on doubles; it is compared with \<^const>\<open>trainingCountOf\<close> below, for the lengths
  that an array can have.
\<close>

definition roundToDouble :: "nat \<Rightarrow> nat" where
  "roundToDouble N =
     (let k = floorlog 2 N - 53;
          a = N div 2 ^ k;
          r = N mod 2 ^ k
      in if 2 ^ k < 2 * r \<or> (2 * r = 2 ^ k \<and> odd a) then (a + 1) * 2 ^ k else a * 2 ^ k)"

definition doubleTrainingCount :: "nat \<Rightarrow> nat" where
  "doubleTrainingCount n = roundToDouble (n * 7205759403792794) div 2 ^ 53"

text \<open>
  The rest of the \<open>try\<close> block after the batch loop; the result is the message of the
  exception that leaves the block, if one does.
\<close>

definition completedData ::
  "string \<Rightarrow> string \<Rightarrow> string \<Rightarrow> nat \<Rightarrow> nat \<Rightarrow> nat \<Rightarrow> dataset \<Rightarrow> dataset" where
  "completedData fullContent trainingContent testContent numValidated numTraining numTest d =
     d\<lparr>ds_content := Some fullContent,
       ds_training_content := Some trainingContent,
       ds_test_content := Some testContent,
       ds_num_examples := Some numValidated,
       ds_training_examples_count := Some numTraining,
       ds_test_examples_count := Some numTest,
       ds_status := GenCompleted,
       ds_generated_count := int numValidated\<rparr>"

definition finish ::
  "environment \<Rightarrow> example list \<Rightarrow> world \<Rightarrow> string option \<times> world" where
  "finish env allExamples w =
     (let validatedExamples = filter wellFormed allExamples
      in if length validatedExamples = 0
         then (Some ''No valid examples generated after validation'', w)
         else
           let trainingCount = trainingCountOf (length validatedExamples);
               trainingExamples = take trainingCount validatedExamples;
               testExamples = drop trainingCount validatedExamples;
               fullContent = convertToJSONL validatedExamples;
               trainingContent = convertToJSONL trainingExamples;
               testContent = convertToJSONL testExamples
           in if \<not> validateJSONL fullContent
              then (Some ''Generated JSONL content is invalid'', w)
              else
                (case datasetUpdate env
                   (completedData fullContent trainingContent testContent
                      (length validatedExamples) (length trainingExamples)
                      (length testExamples)) w of
                   (Inl err, w') \<Rightarrow> (Some err, w')
                 | (Inr completedDataset, w') \<Rightarrow> (None, w')))"

definition processingData :: "dataset \<Rightarrow> dataset" where
  "processingData d = d\<lparr>ds_status := GenProcessing\<rparr>"

definition tryBlock ::
  "environment \<Rightarrow> runtime \<Rightarrow> world \<Rightarrow> string option \<times> world" where
  "tryBlock env rt w =
     (case datasetUpdate env processingData w of
        (Inl err, w1) \<Rightarrow> (Some err, w1)
      | (Inr processingDataset, w1) \<Rightarrow>
          (case datasetFindUnique env w1 of
             (Inl err, w2) \<Rightarrow> (Some err, w2)
           | (Inr None, w2) \<Rightarrow> (Some ''Job not found'', w2)
           | (Inr (Some job), w2) \<Rightarrow>
               if orElse (OPENAI_API_KEY env) [] = []
               then (Some ''OPENAI_API_KEY not configured'', w2)
               else
                 let targetExamples =
                       (case ds_target_examples job of
                          Some t \<Rightarrow> t
                        | None \<Rightarrow> ds_total_batches job * 5)
                 in case batches env rt job targetExamples 0 [] {} w2 of
                      (allExamples, hashes, w3) \<Rightarrow> finish env allExamples w3))"

text \<open>
  The \<open>catch\<close> block: it reads the title for the notification (a failure of the read
  is replaced by \<open>null\<close>), then writes the failed status and the message; a failure of
  that write is ignored.
\<close>

definition failedData :: "string \<Rightarrow> dataset \<Rightarrow> dataset" where
  "failedData errorMessage d = d\<lparr>ds_status := GenFailed, ds_error := Some errorMessage\<rparr>"

definition catchBlock :: "environment \<Rightarrow> string \<Rightarrow> world \<Rightarrow> world" where
  "catchBlock env errorMessage w =
     (let (failedJob, w1) = datasetFindUnique env w;
          (failedDataset, w2) = datasetUpdate env (failedData errorMessage) w1
      in w2)"

definition processGenerationJob ::
  "environment \<Rightarrow> runtime \<Rightarrow> world \<Rightarrow> world" where
  "processGenerationJob env rt w =
     (case tryBlock env rt w of
        (None, w') \<Rightarrow> w'
      | (Some errorMessage, w') \<Rightarrow> catchBlock env errorMessage w')"

section \<open>Notions used in the statements about the runner\<close>

text \<open>
  A row \<open>d'\<close> is \<open>d\<close> after progress writes when the two differ at most in the batch
  counter and the generated count; \<open>rowProgress\<close> lifts this to the store.
\<close>

definition progressOf :: "dataset \<Rightarrow> dataset \<Rightarrow> bool" where
  "progressOf d d' \<longleftrightarrow> d' = progressData (ds_current_batch d') (ds_generated_count d') d"

definition rowProgress :: "world \<Rightarrow> world \<Rightarrow> bool" where
  "rowProgress w w' \<longleftrightarrow>
     (case row w of None \<Rightarrow> row w' = None | Some d \<Rightarrow> (\<exists>d'. row w' = Some d' \<and> progressOf d d'))"

text \<open>The row that the completing update leaves, given the validated examples.\<close>

definition completedFrom :: "example list \<Rightarrow> dataset \<Rightarrow> dataset" where
  "completedFrom validatedExamples d =
     completedData (convertToJSONL validatedExamples)
       (convertToJSONL (take (trainingCountOf (length validatedExamples)) validatedExamples))
       (convertToJSONL (drop (trainingCountOf (length validatedExamples)) validatedExamples))
       (length validatedExamples) (trainingCountOf (length validatedExamples))
       (length validatedExamples - trainingCountOf (length validatedExamples)) d"

text \<open>
  The fingerprints of a list of examples are fresh when they are pairwise distinct, all
  recorded in the set of the current job, and none of them is in the global set.
\<close>

definition fresh ::
  "runtime \<Rightarrow> string set \<Rightarrow> example list \<Rightarrow> string set \<Rightarrow> bool" where
  "fresh rt existing examples seen \<longleftrightarrow>
     distinct (map (createExampleHash rt) examples) \<and>
     createExampleHash rt ` set examples \<subseteq> seen \<and>
     createExampleHash rt ` set examples \<inter> existing = {}"

section \<open>Sample runtimes and examples\<close>

text \<open>
  Two runtimes for the sample runs. In both the digest is the identity, under which
  different texts have different digests. The collation of the first is the order of the
  code units, which puts the roles \<open>assistant\<close>, \<open>system\<close> and \<open>user\<close> in the order of
  the alphabet. The collation of the second ignores the soft hyphen \<open>U+00AD\<close>, as the Unicode
  collation algorithm does, and orders the code units that remain.
\<close>

definition codeUnitCompare :: "string \<Rightarrow> string \<Rightarrow> int" where
  "codeUnitCompare a b = (if a < b then - 1 else if b < a then 1 else 0)"

definition plainRuntime :: runtime where
  "plainRuntime = \<lparr>sha256 = id, localeCompare = codeUnitCompare\<rparr>"

definition withoutSoftHyphens :: "string \<Rightarrow> string" where
  "withoutSoftHyphens s = filter (\<lambda>c. c \<noteq> CHR 0xAD) s"

definition collatingRuntime :: runtime where
  "collatingRuntime =
     \<lparr>sha256 = id,
      localeCompare = (\<lambda>a b. codeUnitCompare (withoutSoftHyphens a) (withoutSoftHyphens b))\<rparr>"

text \<open>
  Two examples with the same three messages, the two user messages in either order. The
  contents of the user messages are \<open>coop\<close> and \<open>co\<close>, soft hyphen, \<open>op\<close>.
\<close>

definition softCoop :: string where
  "softCoop = ''co'' @ [CHR 0xAD] @ ''op''"

definition coopFirst :: example where
  "coopFirst =
     \<lparr>messages = [\<lparr>role = ''user'', content = ''coop''\<rparr>,
                  \<lparr>role = ''user'', content = softCoop\<rparr>,
                  \<lparr>role = ''assistant'', content = ''yes''\<rparr>]\<rparr>"

definition coopLast :: example where
  "coopLast =
     \<lparr>messages = [\<lparr>role = ''user'', content = softCoop\<rparr>,
                  \<lparr>role = ''user'', content = ''coop''\<rparr>,
                  \<lparr>role = ''assistant'', content = ''yes''\<rparr>]\<rparr>"

section \<open>Sample runs of the job runner\<close>

text \<open>
  A pending job for two examples in one batch, and four environments: one without
  provider (every completion call fails, the fallback examples are used), one whose record
  store is unreachable from its fourth call on, one without API key, and one whose
  provider answers with the same question and answer twice, once followed by a blank
  system message.
\<close>

definition pendingJob :: dataset where
  "pendingJob =
     \<lparr>ds_title = ''Billing'', ds_description = Some ''Questions about invoices.'',
      ds_dataset_type = ''chat'', ds_status = GenPending, ds_current_batch = 0,
      ds_total_batches = 1, ds_generated_count = 0, ds_target_examples = Some 2,
      ds_content = None, ds_training_content = None, ds_test_content = None,
      ds_num_examples = None, ds_training_examples_count = None,
      ds_test_examples_count = None, ds_error = None\<rparr>"

definition startWorld :: world where
  "startWorld = \<lparr>row = Some pendingJob, storeCalls = 0, completionCalls = 0\<rparr>"

definition offlineEnvironment :: environment where
  "offlineEnvironment =
     \<lparr>OPENAI_API_KEY = Some ''key'', storeRejects = (\<lambda>n. None),
      completions = (\<lambda>n. Unusable), existingHashes = {}\<rparr>"

definition outageEnvironment :: environment where
  "outageEnvironment =
     \<lparr>OPENAI_API_KEY = Some ''key'',
      storeRejects = (\<lambda>n. if 3 \<le> n then Some ''Can not reach database server'' else None),
      completions = (\<lambda>n. Unusable), existingHashes = {}\<rparr>"

definition keylessEnvironment :: environment where
  "keylessEnvironment =
     \<lparr>OPENAI_API_KEY = None, storeRejects = (\<lambda>n. None),
      completions = (\<lambda>n. Unusable), existingHashes = {}\<rparr>"

definition greeting :: example where
  "greeting = \<lparr>messages = [\<lparr>role = ''user'', content = ''hi''\<rparr>,
                            \<lparr>role = ''assistant'', content = ''yo''\<rparr>]\<rparr>"

definition paddedGreeting :: example where
  "paddedGreeting = \<lparr>messages = [\<lparr>role = ''user'', content = ''hi''\<rparr>,
                                  \<lparr>role = ''assistant'', content = ''yo''\<rparr>,
                                  \<lparr>role = ''system'', content = '' ''\<rparr>]\<rparr>"

definition twinAnswer :: completion where
  "twinAnswer =
     Content (JsonObject (Some
       [Some [RawMessage (Some ''user'') (Some ''hi''),
              RawMessage (Some ''assistant'') (Some ''yo''),
              RawMessage (Some ''system'') (Some '' '')],
        Some [RawMessage (Some ''user'') (Some ''hi''),
              RawMessage (Some ''assistant'') (Some ''yo'')]]) None)"

definition twinEnvironment :: environment where
  "twinEnvironment =
     \<lparr>OPENAI_API_KEY = Some ''key'', storeRejects = (\<lambda>n. None),
      completions = (\<lambda>n. twinAnswer), existingHashes = {}\<rparr>"

section \<open>Fine-tune job lifecycle manager\<close>

text \<open>
  The rows of fine-tune jobs and of bots, with the fields that submission and
  reconciliation decide on. Statuses are the strings that the store holds. A member of a
  row that is \<open>null\<close> is \<open>None\<close>. Left out are the hyperparameters with the
  metadata and training metrics embedded in them, the file size estimate, the phase time
  stamps, the durations and the cost estimate: they are written and never read by the
  operations below.
\<close>

record error_details =
  err_message :: "string option"
  err_code :: "string option"
  err_type :: "string option"
  err_param :: "string option"

record fine_tune_job =
  job_bot_id :: string
  job_training_file_id :: string
  job_openai_job_id :: "string option"
  job_status :: string
  job_fine_tuned_model_id :: "string option"
  job_trained_tokens :: "int option"
  job_finished_at :: "int option"
  job_error :: "error_details option"
  job_parent_job_id :: "string option"

record bot =
  bot_model :: string
  bot_status :: string
  bot_fine_tuned_model_id :: "string option"
  bot_training_file_id :: "string option"

record database =
  jobs :: "string \<rightharpoonup> fine_tune_job"
  bots :: "string \<rightharpoonup> bot"

text \<open>
  A member of the error object in a body of the provider is absent, \<open>null\<close> or a string.
  \<open>memberOr m d\<close> is \<open>m || d\<close>. \<open>spreadOver m v\<close> is the value of a key in an object
  literal that sets the key to \<open>v\<close> and then spreads the provider's object over it: the
  member of that object wins whenever the object has the key, also with \<open>null\<close> or the
  empty string as its value.
\<close>

datatype member = Absent | Null | Text string

record provider_error =
  pe_message :: member
  pe_code :: member
  pe_type :: member
  pe_param :: member

definition memberOr :: "member \<Rightarrow> string option \<Rightarrow> string option" where
  "memberOr m d = (case m of Text s \<Rightarrow> if s = [] then d else Some s | _ \<Rightarrow> d)"

definition spreadOver :: "member \<Rightarrow> string option \<Rightarrow> string option" where
  "spreadOver m v = (case m of Absent \<Rightarrow> v | Null \<Rightarrow> None | Text s \<Rightarrow> Some s)"

text \<open>
  A string member of another body or row is \<open>None\<close> when it is absent or \<open>null\<close>; it
  is truthy when it is present and not empty.
\<close>

definition truthy :: "string option \<Rightarrow> bool" where
  "truthy x \<longleftrightarrow> (case x of None \<Rightarrow> False | Some s \<Rightarrow> s \<noteq> [])"

text \<open>\<open>a || b || null\<close> on optional strings.\<close>

definition firstTruthy :: "string option \<Rightarrow> string option \<Rightarrow> string option" where
  "firstTruthy a b = (if truthy a then a else if truthy b then b else None)"

text \<open>
  \<open>prisma.fineTuneJob.update\<close> and \<open>prisma.bot.update\<close>: the store answers every call,
  and an update throws (\<open>None\<close>) exactly when there is no row with the identifier.
\<close>

definition updateJob ::
  "string \<Rightarrow> (fine_tune_job \<Rightarrow> fine_tune_job) \<Rightarrow> database \<Rightarrow> database option" where
  "updateJob job_id change db =
     (case jobs db job_id of
        None \<Rightarrow> None
      | Some j \<Rightarrow> Some (db\<lparr>jobs := (jobs db)(job_id \<mapsto> change j)\<rparr>))"

definition updateBot :: "string \<Rightarrow> (bot \<Rightarrow> bot) \<Rightarrow> database \<Rightarrow> database option" where
  "updateBot bot_id change db =
     (case bots db bot_id of
        None \<Rightarrow> None
      | Some b \<Rightarrow> Some (db\<lparr>bots := (bots db)(bot_id \<mapsto> change b)\<rparr>))"

subsection \<open>Submission\<close>

text \<open>
  The body of the request, without the members that are only stored or passed on
  (hyperparameters, model, model types, suffix, validation file).
\<close>

record create_request =
  req_bot_id :: "string option"
  req_training_file_id :: "string option"
  req_training_method :: "string option"
  req_model_type :: "string option"
  req_parent_job_id :: "string option"

text \<open>
  The provider's answer to the submission. The request can throw, with a message. An
  answer with a status other than 200 carries a body that cannot be read as JSON (then
  the status text is used) or a JSON object whose member \<open>error\<close> is an object or is
  falsy (\<open>None\<close>). An answer
  with status 200 carries a body that cannot be read (reading throws, with a message) or
  a JSON value of which the members \<open>id\<close> and \<open>status\<close> are looked at.
\<close>

datatype error_body = UnreadableError string | ErrorBody "provider_error option"

datatype success_body = UnreadableSuccess string | SuccessBody "string option" "string option"

datatype submission =
    RequestThrows string
  | ErrorStatus nat error_body
  | Status200 success_body

text \<open>
  What submission meets outside the request: the API key, the identifier that the store
  gives to the new row (fresh for the store), the message with which the store refuses
  to connect a new job to a parent that it does not hold, and the provider's answer.
\<close>

record submit_environment =
  se_OPENAI_API_KEY :: "string option"
  se_new_job_id :: string
  se_connect_error :: string
  se_submission :: submission

datatype response = ERROR string | SUCCESS "fine_tune_job option"

text \<open>The decimal text of a status code (\<open>String(response.status)\<close>).\<close>

fun digitsOf :: "nat \<Rightarrow> nat \<Rightarrow> string" where
  "digitsOf 0 n = []"
| "digitsOf (Suc fuel) n =
     (if n < 10 then [char_of (48 + n)]
      else digitsOf fuel (n div 10) @ [char_of (48 + n mod 10)])"

definition String :: "nat \<Rightarrow> string" where
  "String n = digitsOf (Suc n) n"

text \<open>
  The error object written for an answer with a status other than 200: every member is
  set to the provider's member or a default, and the provider's error object is then
  spread over the result.
\<close>

definition submissionError :: "nat \<Rightarrow> error_body \<Rightarrow> error_details" where
  "submissionError status body =
     (let errorDetails =
            (case body of
               UnreadableError statusText \<Rightarrow>
                 \<lparr>pe_message = Text (''HTTP '' @ String status @ '': '' @ statusText),
                  pe_code = Text (String status), pe_type = Absent, pe_param = Absent\<rparr>
             | ErrorBody None \<Rightarrow>
                 \<lparr>pe_message = Absent, pe_code = Absent, pe_type = Absent, pe_param = Absent\<rparr>
             | ErrorBody (Some e) \<Rightarrow> e)
      in \<lparr>err_message =
            spreadOver (pe_message errorDetails)
              (memberOr (pe_message errorDetails) (Some ''Failed to create fine-tuning job'')),
          err_code =
            spreadOver (pe_code errorDetails)
              (memberOr (pe_code errorDetails) (Some (String status))),
          err_type = spreadOver (pe_type errorDetails) (memberOr (pe_type errorDetails) None),
          err_param =
            spreadOver (pe_param errorDetails) (memberOr (pe_param errorDetails) None)\<rparr>)"

definition jobFailed :: "error_details \<Rightarrow> fine_tune_job \<Rightarrow> fine_tune_job" where
  "jobFailed e j = j\<lparr>job_status := ''failed'', job_error := Some e\<rparr>"

definition botStatus :: "string \<Rightarrow> bot \<Rightarrow> bot" where
  "botStatus s b = b\<lparr>bot_status := s\<rparr>"

text \<open>
  The handler of an exception thrown by the request or by reading the body of a 200
  answer: the job fails with the exception's message, the bot becomes inactive, and the
  exception goes on to the outer handler, which answers \<open>INTERNAL_ERROR\<close>. An update
  that throws inside leaves with the same answer.
\<close>

definition apiErrorHandler :: "string \<Rightarrow> string \<Rightarrow> string \<Rightarrow> database \<Rightarrow> response \<times> database" where
  "apiErrorHandler job_id bot_id errorMessage db =
     (case updateJob job_id
             (jobFailed \<lparr>err_message = Some errorMessage, err_code = Some ''API_ERROR'',
                          err_type = Some ''internal_error'', err_param = None\<rparr>) db of
        None \<Rightarrow> (ERROR ''INTERNAL_ERROR'', db)
      | Some db1 \<Rightarrow>
          (case updateBot bot_id (botStatus ''inactive'') db1 of
             None \<Rightarrow> (ERROR ''INTERNAL_ERROR'', db1)
           | Some db2 \<Rightarrow> (ERROR ''INTERNAL_ERROR'', db2)))"

text \<open>The part of \<open>POST\<close> after the new row is stored and the bot is marked as training.\<close>

definition submitToProvider ::
  "submission \<Rightarrow> string \<Rightarrow> string \<Rightarrow> database \<Rightarrow> response \<times> database" where
  "submitToProvider answer job_id bot_id db =
     (case answer of
        RequestThrows errorMessage \<Rightarrow> apiErrorHandler job_id bot_id errorMessage db
      | ErrorStatus status body \<Rightarrow>
          (case updateJob job_id (jobFailed (submissionError status body)) db of
             None \<Rightarrow> apiErrorHandler job_id bot_id recordNotFound db
           | Some db1 \<Rightarrow>
               (case updateBot bot_id (botStatus ''inactive'') db1 of
                  None \<Rightarrow> apiErrorHandler job_id bot_id recordNotFound db1
                | Some db2 \<Rightarrow> (ERROR ''FINE_TUNE_JOB_CREATION_FAILED'', db2)))
      | Status200 (UnreadableSuccess errorMessage) \<Rightarrow>
          apiErrorHandler job_id bot_id errorMessage db
      | Status200 (SuccessBody openaiId openaiStatus) \<Rightarrow>
          if \<not> truthy openaiId
          then
            (case updateJob job_id
                    (jobFailed \<lparr>err_message = Some ''Invalid response from OpenAI API'',
                                 err_code = Some ''INVALID_RESPONSE'',
                                 err_type = None, err_param = None\<rparr>) db of
               None \<Rightarrow> apiErrorHandler job_id bot_id recordNotFound db
             | Some db1 \<Rightarrow> (ERROR ''FINE_TUNE_JOB_CREATION_FAILED'', db1))
          else
            (case updateJob job_id
                    (\<lambda>j. j\<lparr>job_openai_job_id := openaiId,
                            job_status := orElse openaiStatus ''pending''\<rparr>) db of
               None \<Rightarrow> apiErrorHandler job_id bot_id recordNotFound db
             | Some db1 \<Rightarrow> (SUCCESS (jobs db1 job_id), db1)))"

definition POST :: "submit_environment \<Rightarrow> create_request \<Rightarrow> database \<Rightarrow> response \<times> database" where
  "POST env body db =
     (if \<not> truthy (req_bot_id body) \<or> \<not> truthy (req_training_file_id body)
      then (ERROR ''MISSING_REQUIRED_FIELDS'', db)
      else
        let bot_id = the (req_bot_id body);
            training_file_id = the (req_training_file_id body);
            trainingMethod = orElse (req_training_method body) ''supervised'';
            modelType = orElse (req_model_type body) ''chat''
        in if trainingMethod \<notin> set [''supervised'', ''reinforcement'']
           then (ERROR ''INVALID_TRAINING_METHOD'', db)
           else if modelType \<notin> set [''chat'', ''calling'', ''voice'']
           then (ERROR ''INVALID_MODEL_TYPE'', db)
           else if bots db bot_id = None
           then (ERROR ''BOT_NOT_FOUND'', db)
           else if \<not> truthy (se_OPENAI_API_KEY env)
           then (ERROR ''OPENAI_API_KEY_NOT_CONFIGURED'', db)
           else if truthy (req_parent_job_id body) \<and>
                   jobs db (the (req_parent_job_id body)) = None
           then
             (if sublist ''parent_job_id'' (se_connect_error env) \<or>
                 sublist ''parentJob'' (se_connect_error env) \<or>
                 sublist ''Unknown argument'' (se_connect_error env)
              then (ERROR ''MIGRATION_REQUIRED'', db)
              else (ERROR ''INTERNAL_ERROR'', db))
           else
             let fineTuneJob =
                   \<lparr>job_bot_id = bot_id, job_training_file_id = training_file_id,
                    job_openai_job_id = None, job_status = ''pending'',
                    job_fine_tuned_model_id = None, job_trained_tokens = None,
                    job_finished_at = None, job_error = None,
                    job_parent_job_id =
                      (if truthy (req_parent_job_id body) then req_parent_job_id body
                       else None)\<rparr>;
                 db1 = db\<lparr>jobs := (jobs db)(se_new_job_id env \<mapsto> fineTuneJob)\<rparr>
             in case updateBot bot_id
                       (\<lambda>b. b\<lparr>bot_status := ''training'',
                               bot_training_file_id := Some training_file_id\<rparr>) db1 of
                  None \<Rightarrow> (ERROR ''INTERNAL_ERROR'', db1)
                | Some db2 \<Rightarrow>
                    submitToProvider (se_submission env) (se_new_job_id env) bot_id db2)"

subsection \<open>Reconciliation\<close>

text \<open>
  The job as the provider reports it. The status query has \<open>NoAnswer\<close> when the request
  throws, when its status is not 200, or when the body cannot be read as a JSON object;
  the stored job is then returned as it is.
\<close>

record openai_job =
  oj_status :: "string option"
  oj_fine_tuned_model :: "string option"
  oj_fine_tuned_model_id :: "string option"
  oj_trained_tokens :: "int option"
  oj_finished_at :: "int option"
  oj_error :: "provider_error option"

datatype provider_answer = NoAnswer | Answer openai_job

text \<open>\<open>n || null\<close> on an optional number.\<close>

definition nonZero :: "int option \<Rightarrow> int option" where
  "nonZero x = (case x of None \<Rightarrow> None | Some n \<Rightarrow> if n = 0 then None else Some n)"

text \<open>
  The update data of a status query, applied to the stored row: the reported status
  replaces the stored one whenever it is present and not empty. The error is written only
  when the provider reports one, with its members spread over the defaults.
\<close>

definition reconciled :: "openai_job \<Rightarrow> fine_tune_job \<Rightarrow> fine_tune_job" where
  "reconciled openaiJob job =
     job\<lparr>job_status := orElse (oj_status openaiJob) (job_status job),
         job_fine_tuned_model_id :=
           firstTruthy (oj_fine_tuned_model openaiJob) (oj_fine_tuned_model_id openaiJob),
         job_trained_tokens := nonZero (oj_trained_tokens openaiJob),
         job_finished_at := map_option (\<lambda>t. t * 1000) (nonZero (oj_finished_at openaiJob)),
         job_error :=
           (case oj_error openaiJob of
              None \<Rightarrow> job_error job
            | Some e \<Rightarrow>
                Some \<lparr>err_message =
                        spreadOver (pe_message e) (memberOr (pe_message e) (Some ''Unknown error'')),
                      err_code = spreadOver (pe_code e) (memberOr (pe_code e) None),
                      err_type = spreadOver (pe_type e) (memberOr (pe_type e) None),
                      err_param = spreadOver (pe_param e) (memberOr (pe_param e) None)\<rparr>)\<rparr>"

text \<open>
  The model of a succeeded child goes to the row of its parent; a failure of that update
  is logged and nothing else.
\<close>

definition propagateToParent :: "fine_tune_job \<Rightarrow> string option \<Rightarrow> database \<Rightarrow> database" where
  "propagateToParent job fineTunedModelId db =
     (if truthy (job_parent_job_id job)
      then
        (case updateJob (the (job_parent_job_id job))
                (\<lambda>parent. parent\<lparr>job_fine_tuned_model_id := fineTunedModelId\<rparr>) db of
           None \<Rightarrow> db
         | Some db' \<Rightarrow> db')
      else db)"

text \<open>
  The update of the bot after the job's row is written; \<open>None\<close> is the exception of an
  update of a missing bot.
\<close>

definition updateBotFor :: "openai_job \<Rightarrow> fine_tune_job \<Rightarrow> database \<Rightarrow> database option" where
  "updateBotFor openaiJob job db =
     (let fineTunedModelId =
            firstTruthy (oj_fine_tuned_model openaiJob) (oj_fine_tuned_model_id openaiJob)
      in if oj_status openaiJob = Some ''succeeded'' \<and> truthy fineTunedModelId
         then
           (case updateBot (job_bot_id job)
                   (\<lambda>b. b\<lparr>bot_fine_tuned_model_id := fineTunedModelId,
                           bot_model := the fineTunedModelId,
                           bot_status := ''active''\<rparr>) db of
              None \<Rightarrow> None
            | Some db' \<Rightarrow> Some (propagateToParent job fineTunedModelId db'))
         else if oj_status openaiJob = Some ''failed''
         then updateBot (job_bot_id job) (botStatus ''inactive'') db
         else if oj_status openaiJob = Some ''cancelled''
         then updateBot (job_bot_id job) (botStatus ''inactive'') db
         else if oj_status openaiJob = Some ''running'' \<or>
                 oj_status openaiJob = Some ''validating_files'' \<or>
                 oj_status openaiJob = Some ''pending''
         then updateBot (job_bot_id job) (botStatus ''training'') db
         else Some db)"

text \<open>
  The status query. An exception after the job's row is written is caught; the answer is
  then the job as it was read at the start.
\<close>

definition GET :: "string option \<Rightarrow> provider_answer \<Rightarrow> string \<Rightarrow> database \<Rightarrow> response \<times> database" where
  "GET apiKey answer job_id db =
     (case jobs db job_id of
        None \<Rightarrow> (ERROR ''FINE_TUNE_JOB_NOT_FOUND'', db)
      | Some job \<Rightarrow>
          if truthy (job_openai_job_id job) \<and> truthy apiKey
          then
            (case answer of
               NoAnswer \<Rightarrow> (SUCCESS (Some job), db)
             | Answer openaiJob \<Rightarrow>
                 (case updateJob job_id (reconciled openaiJob) db of
                    None \<Rightarrow> (SUCCESS (Some job), db)
                  | Some db1 \<Rightarrow>
                      (case updateBotFor openaiJob job db1 of
                         None \<Rightarrow> (SUCCESS (Some job), db1)
                       | Some db2 \<Rightarrow> (SUCCESS (jobs db2 job_id), db2))))
          else (SUCCESS (Some job), db))"

text \<open>A sequence of status queries for one job, one provider answer each.\<close>

definition reconcileAll ::
  "string option \<Rightarrow> string \<Rightarrow> provider_answer list \<Rightarrow> database \<Rightarrow> database" where
  "reconcileAll apiKey job_id answers db =
     foldl (\<lambda>db' answer. snd (GET apiKey answer job_id db')) db answers"

section \<open>Notions used in the statements about fine-tune jobs\<close>

text \<open>
  The place of a status on the path \<open>pending\<close>, \<open>validating_files\<close>, \<open>running\<close>, terminal.
\<close>

definition phase :: "string \<Rightarrow> nat" where
  "phase s =
     (if s = ''pending'' then 0
      else if s = ''validating_files'' then 1
      else if s = ''running'' then 2
      else 3)"

text \<open>The status that the provider reported last, \<open>s\<close> when it never reported one.\<close>

definition lastReported :: "string \<Rightarrow> provider_answer list \<Rightarrow> string" where
  "lastReported s answers =
     foldl (\<lambda>s' answer.
        case answer of NoAnswer \<Rightarrow> s' | Answer openaiJob \<Rightarrow> orElse (oj_status openaiJob) s')
       s answers"

section \<open>Sample fine-tune jobs\<close>

definition supportBot :: bot where
  "supportBot =
     \<lparr>bot_model = ''gpt-4o-mini'', bot_status = ''inactive'',
      bot_fine_tuned_model_id = None, bot_training_file_id = None\<rparr>"

definition rootJob :: fine_tune_job where
  "rootJob =
     \<lparr>job_bot_id = ''bot-1'', job_training_file_id = ''file-1'',
      job_openai_job_id = Some ''ftjob-1'', job_status = ''succeeded'',
      job_fine_tuned_model_id = Some ''ft:M0'', job_trained_tokens = None,
      job_finished_at = None, job_error = None, job_parent_job_id = None\<rparr>"

definition parentJob :: fine_tune_job where
  "parentJob =
     \<lparr>job_bot_id = ''bot-1'', job_training_file_id = ''file-2'',
      job_openai_job_id = Some ''ftjob-2'', job_status = ''succeeded'',
      job_fine_tuned_model_id = Some ''ft:M1'', job_trained_tokens = None,
      job_finished_at = None, job_error = None, job_parent_job_id = Some ''job-0''\<rparr>"

definition childJob :: fine_tune_job where
  "childJob =
     \<lparr>job_bot_id = ''bot-1'', job_training_file_id = ''file-3'',
      job_openai_job_id = Some ''ftjob-3'', job_status = ''running'',
      job_fine_tuned_model_id = None, job_trained_tokens = None,
      job_finished_at = None, job_error = None, job_parent_job_id = Some ''job-1''\<rparr>"

definition chainStore :: database where
  "chainStore =
     \<lparr>jobs = [''job-0'' \<mapsto> rootJob, ''job-1'' \<mapsto> parentJob, ''job-2'' \<mapsto> childJob],
      bots = [''bot-1'' \<mapsto> supportBot\<lparr>bot_status := ''training''\<rparr>]\<rparr>"

definition reports :: "string \<Rightarrow> provider_answer" where
  "reports s =
     Answer \<lparr>oj_status = Some s, oj_fine_tuned_model = None, oj_fine_tuned_model_id = None,
             oj_trained_tokens = None, oj_finished_at = None, oj_error = None\<rparr>"

definition succeededWith :: "string \<Rightarrow> provider_answer" where
  "succeededWith m =
     Answer \<lparr>oj_status = Some ''succeeded'', oj_fine_tuned_model = Some m,
             oj_fine_tuned_model_id = None, oj_trained_tokens = Some 5000,
             oj_finished_at = Some 1700000000, oj_error = None\<rparr>"

definition botStore :: database where
  "botStore = \<lparr>jobs = Map.empty, bots = [''bot-1'' \<mapsto> supportBot]\<rparr>"

definition submitRequest :: create_request where
  "submitRequest =
     \<lparr>req_bot_id = Some ''bot-1'', req_training_file_id = Some ''file-1'',
      req_training_method = None, req_model_type = None, req_parent_job_id = None\<rparr>"

definition answering :: "submission \<Rightarrow> submit_environment" where
  "answering answer =
     \<lparr>se_OPENAI_API_KEY = Some ''key'', se_new_job_id = ''job-9'',
      se_connect_error = [], se_submission = answer\<rparr>"

section \<open>Model evaluator\<close>

text \<open>
  \<open>str.split(/\s+/)\<close>: the pieces of the text between the maximal runs of white space.
  A text that starts or ends with white space has an empty first or last piece, and the
  empty text has the single piece \<open>''\<close>.
\<close>

function splitWhitespace :: "string \<Rightarrow> string list" where
  "splitWhitespace [] = [[]]"
| "splitWhitespace (c # cs) =
     (if isWhiteSpace c then [] # splitWhitespace (dropWhile isWhiteSpace cs)
      else (case splitWhitespace cs of
              [] \<Rightarrow> [[c]]
            | piece # pieces \<Rightarrow> (c # piece) # pieces))"
  by pat_completeness auto
termination
  by (relation "measure length") (auto simp: length_dropWhile_le le_imp_less_Suc)

text \<open>\<open>new Set(xs)\<close>, as the list of its elements in insertion order.\<close>

definition newSet :: "'a list \<Rightarrow> 'a list" where
  "newSet xs = rev (remdups (rev xs))"

text \<open>The numbers of the evaluator are read as real numbers.\<close>

definition calculateSimilarity :: "string \<Rightarrow> string \<Rightarrow> real" where
  "calculateSimilarity str1 str2 =
     (let words1 = splitWhitespace (toLowerCase str1);
          words2 = splitWhitespace (toLowerCase str2);
          set1 = newSet words1;
          set2 = newSet words2;
          intersection = newSet (filter (\<lambda>x. x \<in> set set2) set1);
          union = newSet (set1 @ set2)
      in if length union > 0 then real (length intersection) / real (length union) else 0)"

record test_result =
  tr_input :: string
  tr_expected :: string
  tr_predicted :: string
  tr_correct :: bool
  tr_similarity :: real

text \<open>
  A call of the fine-tuned model either fails (the request throws or its status is not
  200) or succeeds with an optional content. The calls of a run are numbered; only an
  example with a user and an assistant message leads to a call.
\<close>

datatype model_call = CallFails | Replies "string option"

definition scored :: "string \<Rightarrow> string \<Rightarrow> string \<Rightarrow> test_result" where
  "scored input expected predicted =
     (let similarity = calculateSimilarity expected predicted;
          correct = (similarity \<ge> 0.7)
      in \<lparr>tr_input = input, tr_expected = expected, tr_predicted = predicted,
          tr_correct = correct, tr_similarity = similarity\<rparr>)"

definition errored :: "string \<Rightarrow> string \<Rightarrow> test_result" where
  "errored input expected =
     \<lparr>tr_input = input, tr_expected = expected, tr_predicted = [],
      tr_correct = False, tr_similarity = 0\<rparr>"

fun testModelWithExamples :: "(nat \<Rightarrow> model_call) \<Rightarrow> nat \<Rightarrow> example list \<Rightarrow> test_result list" where
  "testModelWithExamples calls n [] = []"
| "testModelWithExamples calls n (ex # rest) =
     (case (find (\<lambda>m. role m = ''user'') (messages ex),
            find (\<lambda>m. role m = ''assistant'') (messages ex)) of
        (Some userMessage, Some assistantMessage) \<Rightarrow>
          (case calls n of
             Replies reply \<Rightarrow>
               scored (content userMessage) (content assistantMessage) (orElse reply [])
           | CallFails \<Rightarrow> errored (content userMessage) (content assistantMessage))
          # testModelWithExamples calls (Suc n) rest
      | _ \<Rightarrow> testModelWithExamples calls n rest)"

record confusion_matrix =
  true_positives :: nat
  false_positives :: nat
  false_negatives :: nat
  true_negatives :: int

record detailed_metrics =
  total_tests :: nat
  correct_predictions :: nat
  incorrect_predictions :: int
  average_similarity :: real
  similarity_high :: nat
  similarity_medium :: nat
  similarity_low :: nat

record metrics =
  accuracy :: real
  precision :: real
  recall :: real
  f1Score :: real
  perplexity :: real
  detailed :: "detailed_metrics option"
  confusionMatrix :: "confusion_matrix option"

definition calculateMetrics :: "test_result list \<Rightarrow> metrics" where
  "calculateMetrics testResults =
     (let total = length testResults
      in if total = 0
         then \<lparr>accuracy = 0, precision = 0, recall = 0, f1Score = 0, perplexity = 0,
               detailed = None, confusionMatrix = None\<rparr>
         else
           let correct = length (filter tr_correct testResults);
               accuracy = real correct / real total;
               avgSimilarity = (\<Sum>r \<leftarrow> testResults. tr_similarity r) / real total;
               tp = length (filter (\<lambda>r. tr_similarity r \<ge> 0.7) testResults);
               fp = length (filter (\<lambda>r. tr_similarity r < 0.7 \<and> tr_correct r) testResults);
               fn = length (filter (\<lambda>r. tr_similarity r \<ge> 0.7 \<and> \<not> tr_correct r) testResults);
               precision = (if tp + fp > 0 then real tp / real (tp + fp) else 0);
               recall = (if tp + fn > 0 then real tp / real (tp + fn) else 0);
               f1Score =
                 (if precision + recall > 0
                  then (2 * precision * recall) / (precision + recall) else 0);
               perplexity =
                 (\<Sum>r \<leftarrow> testResults.
                    if tr_similarity r > 0 then - ln (tr_similarity r) else 10) / real total
           in \<lparr>accuracy = accuracy, precision = precision, recall = recall,
               f1Score = f1Score, perplexity = perplexity,
               detailed =
                 Some \<lparr>total_tests = total, correct_predictions = correct,
                       incorrect_predictions = int total - int correct,
                       average_similarity = avgSimilarity,
                       similarity_high =
                         length (filter (\<lambda>r. tr_similarity r \<ge> 0.8) testResults),
                       similarity_medium =
                         length (filter (\<lambda>r. tr_similarity r \<ge> 0.5 \<and> tr_similarity r < 0.8)
                           testResults),
                       similarity_low =
                         length (filter (\<lambda>r. tr_similarity r < 0.5) testResults)\<rparr>,
               confusionMatrix =
                 Some \<lparr>true_positives = tp, false_positives = fp, false_negatives = fn,
                       true_negatives = int total - int tp - int fp - int fn\<rparr>\<rparr>)"

section \<open>Notions used in the statements about the evaluator\<close>

text \<open>
  Following the words of the specification: the words of a text are its maximal runs of
  characters that are not white space, and its word set is the set of the words of the
  lower-cased text.
\<close>

function wordsOf :: "string \<Rightarrow> string list" where
  "wordsOf s =
     (case dropWhile isWhiteSpace s of
        [] \<Rightarrow> []
      | c # cs \<Rightarrow>
          takeWhile (\<lambda>x. \<not> isWhiteSpace x) (c # cs) #
          wordsOf (dropWhile (\<lambda>x. \<not> isWhiteSpace x) cs))"
  by pat_completeness auto
termination
proof (relation "measure length", goal_cases)
  case 1
  show ?case by simp
next
  case (2 s c cs)
  have "length (dropWhile (\<lambda>x. \<not> isWhiteSpace x) cs) \<le> length cs"
    by (rule length_dropWhile_le)
  moreover have "length (dropWhile isWhiteSpace s) \<le> length s"
    by (rule length_dropWhile_le)
  ultimately show ?case using 2 by simp
qed

lemmas wordsOf_simps = wordsOf.simps

declare wordsOf.simps [simp del]

definition wordSet :: "string \<Rightarrow> string set" where
  "wordSet s = set (wordsOf (toLowerCase s))"

text \<open>
  A text is edged when it is empty or starts or ends with white space. The pieces that
  splitting at white space yields for a text are its words and, for an edged text, the
  empty string.
\<close>

definition edged :: "string \<Rightarrow> bool" where
  "edged s \<longleftrightarrow> s = [] \<or> isWhiteSpace (hd s) \<or> isWhiteSpace (last s)"

definition pieceSet :: "string \<Rightarrow> string set" where
  "pieceSet s = wordSet s \<union> (if edged s then {[]} else {})"

text \<open>The Jaccard coefficient of two finite sets.\<close>

definition jaccard :: "'a set \<Rightarrow> 'a set \<Rightarrow> real" where
  "jaccard A B = real (card (A \<inter> B)) / real (card (A \<union> B))"

text \<open>
  The input and the expected answer that an example contributes (its first user and its
  first assistant message), and the text that a successful call predicts.
\<close>

definition inputOf :: "example \<Rightarrow> string" where
  "inputOf ex = content (the (find (\<lambda>m. role m = ''user'') (messages ex)))"

definition expectedOf :: "example \<Rightarrow> string" where
  "expectedOf ex = content (the (find (\<lambda>m. role m = ''assistant'') (messages ex)))"

definition replyOf :: "model_call \<Rightarrow> string" where
  "replyOf c = (case c of Replies reply \<Rightarrow> orElse reply [] | CallFails \<Rightarrow> [])"

section \<open>Sample evaluation\<close>

text \<open>
  Ten test examples that expect the answer \<open>yes please\<close>, and a model that gives this
  answer to the first seven questions and \<open>no\<close> to the others.
\<close>

definition tenExamples :: "example list" where
  "tenExamples =
     replicate 10 \<lparr>messages = [\<lparr>role = ''user'', content = ''More?''\<rparr>,
                               \<lparr>role = ''assistant'', content = ''Yes please''\<rparr>]\<rparr>"

definition sevenRight :: "nat \<Rightarrow> model_call" where
  "sevenRight n = (if n < 7 then Replies (Some ''yes  PLEASE'') else Replies (Some ''no''))"

text \<open>
  One test example that expects \<open>hello\<close>, and a model that answers \<open>hello\<close> followed
  by a space.
\<close>

definition helloExample :: example where
  "helloExample = \<lparr>messages = [\<lparr>role = ''user'', content = ''Greet me''\<rparr>,
                                \<lparr>role = ''assistant'', content = ''hello''\<rparr>]\<rparr>"

definition trailingSpace :: "nat \<Rightarrow> model_call" where
  "trailingSpace n = Replies (Some ''hello '')"

section \<open>Properties of the uniqueness index\<close>

text \<open>
  Casing and surrounding white space of the contents never reach the text that is hashed:
  two examples whose messages agree one by one after normalisation have the same
  fingerprint, in every runtime.
\<close>

lemma createExampleHash_normalized:
  assumes "map normalizeMessage (messages e1) = map normalizeMessage (messages e2)"
  shows "createExampleHash rt e1 = createExampleHash rt e2"
  using assms by (simp add: createExampleHash_def)

text \<open>
  The order of the messages does not reach the hashed text either, as long as the
  collation ties no two different strings, that is, as long as it is the order of the
  strings under an injective key.
\<close>

lemma compareMessages_key:
  fixes key :: "string \<Rightarrow> 'k::linorder"
  assumes "\<And>a b. localeCompare rt a b \<le> 0 \<longleftrightarrow> key a \<le> key b" and "inj key"
  shows "compareMessages rt a b \<le> 0 \<longleftrightarrow>
         (key (role a), key (content a)) \<le> (key (role b), key (content b))"
proof (cases "role a = role b")
  case True
  then show ?thesis by (simp add: compareMessages_def assms(1) less_eq_prod_def)
next
  case False
  then have "key (role a) \<noteq> key (role b)" using assms(2) by (auto dest: injD)
  with False show ?thesis
    by (auto simp: compareMessages_def assms(1) less_eq_prod_def)
qed

lemma sortWith_sort_key:
  assumes "\<And>a b. cmp a b \<le> 0 \<longleftrightarrow> k a \<le> k b"
  shows "sortWith cmp xs = sort_key k xs"
proof -
  have "insertSorted cmp x ys = insort_key k x ys" for x ys
    by (induction ys) (simp_all add: assms)
  then show ?thesis by (induction xs) (simp_all add: sortWith_def)
qed

lemma createExampleHash_untied:
  fixes key :: "string \<Rightarrow> 'k::linorder"
  assumes cmp: "\<And>a b. localeCompare rt a b \<le> 0 \<longleftrightarrow> key a \<le> key b" and inj: "inj key"
    and perm: "mset (map normalizeMessage (messages e1)) =
               mset (map normalizeMessage (messages e2))"
  shows "createExampleHash rt e1 = createExampleHash rt e2"
proof -
  let ?k = "\<lambda>m. (key (role m), key (content m))"
  let ?xs = "map normalizeMessage (messages e1)" and ?ys = "map normalizeMessage (messages e2)"
  have s: "sortWith (compareMessages rt) zs = sort_key ?k zs" for zs
    by (rule sortWith_sort_key) (rule compareMessages_key [OF cmp inj])
  have "x = y" if "?k x = ?k y" for x y :: message
  proof -
    from that have "role x = role y" and "content x = content y"
      using inj by (auto dest: injD)
    then show ?thesis by simp
  qed
  then have i: "inj_on ?k (set ?xs)"
    by (auto intro: inj_onI)
  have "sort_key ?k ?xs = sort_key ?k ?ys"
  proof (rule sort_key_inj_key_eq)
    show "mset ?xs = mset (sort_key ?k ?ys)" using perm by simp
    show "inj_on ?k (set ?xs)" by (rule i)
    show "sorted (map ?k (sort_key ?k ?ys))" by (rule sorted_sort_key)
  qed
  then show ?thesis by (simp add: createExampleHash_def s)
qed

text \<open>
  C3 does not hold in a runtime whose collation ties two different contents. The
  comparator then returns zero for two messages of the same role, the stable sort leaves
  them in the order of the input, and the text that is hashed depends on that order. The
  two examples below are permutations of each other; the contents of their user messages
  differ in a soft hyphen, which \<open>trim\<close> and \<open>toLowerCase\<close> keep and which the Unicode
  collation algorithm ignores. When the collation ties these contents, each example is
  hashed with its user messages in the order in which it lists them, and the two hashed
  texts differ.
\<close>

theorem tied_contents_keep_input_order:
  assumes "localeCompare rt ''coop'' softCoop = 0" and "localeCompare rt softCoop ''coop'' = 0"
    and "0 < localeCompare rt ''user'' ''assistant''"
  shows "mset (map normalizeMessage (messages coopFirst)) =
           mset (map normalizeMessage (messages coopLast)) \<and>
         createExampleHash rt coopFirst =
           sha256 rt (stringifyExample
             \<lparr>messages = [\<lparr>role = ''assistant'', content = ''yes''\<rparr>,
                          \<lparr>role = ''user'', content = ''coop''\<rparr>,
                          \<lparr>role = ''user'', content = softCoop\<rparr>]\<rparr>) \<and>
         createExampleHash rt coopLast =
           sha256 rt (stringifyExample
             \<lparr>messages = [\<lparr>role = ''assistant'', content = ''yes''\<rparr>,
                          \<lparr>role = ''user'', content = softCoop\<rparr>,
                          \<lparr>role = ''user'', content = ''coop''\<rparr>]\<rparr>) \<and>
         stringifyExample
           \<lparr>messages = [\<lparr>role = ''assistant'', content = ''yes''\<rparr>,
                        \<lparr>role = ''user'', content = ''coop''\<rparr>,
                        \<lparr>role = ''user'', content = softCoop\<rparr>]\<rparr> \<noteq>
         stringifyExample
           \<lparr>messages = [\<lparr>role = ''assistant'', content = ''yes''\<rparr>,
                        \<lparr>role = ''user'', content = softCoop\<rparr>,
                        \<lparr>role = ''user'', content = ''coop''\<rparr>]\<rparr>"
proof -
  have n1: "map normalizeMessage (messages coopFirst) = messages coopFirst"
    by code_simp
  have n2: "map normalizeMessage (messages coopLast) = messages coopLast"
    by code_simp
  have p: "mset (messages coopFirst) = mset (messages coopLast)"
    by (simp add: coopFirst_def coopLast_def)
  have s1: "sortWith (compareMessages rt) (messages coopFirst) =
              [\<lparr>role = ''assistant'', content = ''yes''\<rparr>,
               \<lparr>role = ''user'', content = ''coop''\<rparr>,
               \<lparr>role = ''user'', content = softCoop\<rparr>]"
    using assms(1,3) by (simp add: sortWith_def compareMessages_def coopFirst_def)
  have s2: "sortWith (compareMessages rt) (messages coopLast) =
              [\<lparr>role = ''assistant'', content = ''yes''\<rparr>,
               \<lparr>role = ''user'', content = softCoop\<rparr>,
               \<lparr>role = ''user'', content = ''coop''\<rparr>]"
    using assms(2,3) by (simp add: sortWith_def compareMessages_def coopLast_def)
  have d: "stringifyExample
             \<lparr>messages = [\<lparr>role = ''assistant'', content = ''yes''\<rparr>,
                          \<lparr>role = ''user'', content = ''coop''\<rparr>,
                          \<lparr>role = ''user'', content = softCoop\<rparr>]\<rparr> \<noteq>
           stringifyExample
             \<lparr>messages = [\<lparr>role = ''assistant'', content = ''yes''\<rparr>,
                          \<lparr>role = ''user'', content = softCoop\<rparr>,
                          \<lparr>role = ''user'', content = ''coop''\<rparr>]\<rparr>"
    by code_simp
  show ?thesis
    using p d by (simp add: createExampleHash_def n1 n2 s1 s2)
qed

theorem tied_contents_keep_input_order_witness:
  "localeCompare collatingRuntime ''coop'' softCoop = 0 \<and>
   localeCompare collatingRuntime softCoop ''coop'' = 0 \<and>
   0 < localeCompare collatingRuntime ''user'' ''assistant'' \<and>
   mset (map normalizeMessage (messages coopFirst)) =
     mset (map normalizeMessage (messages coopLast)) \<and>
   createExampleHash collatingRuntime coopFirst \<noteq> createExampleHash collatingRuntime coopLast"
proof -
  have h1: "localeCompare collatingRuntime ''coop'' softCoop = 0"
    by code_simp
  have h2: "localeCompare collatingRuntime softCoop ''coop'' = 0"
    by code_simp
  have h3: "0 < localeCompare collatingRuntime ''user'' ''assistant''"
    by code_simp
  have i: "sha256 collatingRuntime = id"
    by (simp add: collatingRuntime_def)
  show ?thesis
    using h1 h2 h3 tied_contents_keep_input_order [OF h1 h2 h3] by (simp add: i)
qed

section \<open>Properties of the batch generator\<close>

lemma validateExamples_length:
  "validateExamples xs = Some v \<Longrightarrow> length v \<le> length xs"
proof (induction xs arbitrary: v)
  case Nil
  then show ?case by simp
next
  case (Cons x xs)
  show ?case
  proof (cases x)
    case None
    with Cons show ?thesis by fastforce
  next
    case (Some msgs)
    with Cons.prems obtain w
      where w: "validateExamples xs = Some w" and v: "v = w \<or> (\<exists>e. v = e # w)"
      by (auto simp: Let_def split: if_splits option.splits)
    from Cons.IH [OF w] v show ?thesis by auto
  qed
qed

lemma length_generateFallbackExamples:
  "length (generateFallbackExamples title description cnt) = nat cnt"
  by (simp add: generateFallbackExamples_def)

text \<open>
  C8, as the claim states it, fails: the validated examples are returned as they are,
  and nothing cuts the list down to the requested number. Asked for one example and
  answered with two valid ones, \<open>generateBatch\<close> returns both.
\<close>

theorem generateBatch_exceeds_count:
  "\<not> int (length (generateBatch ''T'' ''D'' 1 ''chat''
        (Content (JsonObject (Some
           [Some [RawMessage (Some ''user'') (Some ''q1''),
                  RawMessage (Some ''assistant'') (Some ''a1'')],
            Some [RawMessage (Some ''user'') (Some ''q2''),
                  RawMessage (Some ''assistant'') (Some ''a2'')]]) None)))) \<le> 1"
  by (simp add: generateBatch_def extractExamples_def normalizeRaw_def keepMessage_def
      hasRole_def orElse_def)

text \<open>
  C8, amended: the returned list is never longer than the larger of the requested number
  and the number of entries the provider's answer offers. (The fallback returns the
  requested number; a usable answer returns its valid entries, all of them.)
\<close>

theorem generateBatch_length:
  "int (length (generateBatch title description cnt datasetType answer))
     \<le> max cnt (int (offered answer))"
proof (cases answer)
  case Unusable
  then show ?thesis
    by (simp add: generateBatch_def length_generateFallbackExamples)
next
  case (Content parsedContent)
  show ?thesis
  proof (cases "validateExamples (extractExamples parsedContent)")
    case None
    with Content show ?thesis
      by (simp add: generateBatch_def length_generateFallbackExamples)
  next
    case (Some v)
    then have "length v \<le> length (extractExamples parsedContent)"
      by (rule validateExamples_length)
    with Content Some show ?thesis
      by (simp add: generateBatch_def offered_def)
  qed
qed

section \<open>Properties of the job runner\<close>

subsection \<open>The record store during a run\<close>

lemma trainingCountOf_div: "trainingCountOf n = (4 * n) div 5"
proof -
  have "real n * 0.8 = real (4 * n) / real 5" by simp
  then have "\<lfloor>real n * 0.8\<rfloor> = int ((4 * n) div 5)"
    by (simp only: floor_divide_of_nat_eq)
  then show ?thesis by (simp add: trainingCountOf_def)
qed

lemma trainingCountOf_le: "trainingCountOf n \<le> n"
  by (simp add: trainingCountOf_div)

text \<open>
  Rounding moves a number to one of the two neighbouring multiples of the unit in its last
  place, so for every length below \<open>2 ^ 32\<close> the product computed on doubles has the same
  integer part as the real product.
\<close>

lemma roundToDouble_bounds:
  "(N div 2 ^ (floorlog 2 N - 53)) * 2 ^ (floorlog 2 N - 53) \<le> roundToDouble N \<and>
   roundToDouble N \<le> N + 2 ^ (floorlog 2 N - 53)"
proof -
  let ?m = "2 ^ (floorlog 2 N - 53) :: nat"
  have d: "(N div ?m) * ?m \<le> N" by simp
  from d have "(N div ?m) * ?m \<le> N + ?m" by (rule trans_le_add1)
  moreover from d have "(N div ?m + 1) * ?m \<le> N + ?m"
    by (simp only: add_mult_distrib mult_1 add_le_mono1)
  ultimately show ?thesis by (simp add: roundToDouble_def Let_def)
qed

lemma doubleTrainingCount_exact:
  assumes n: "n < 2 ^ 32"
  shows "doubleTrainingCount n = trainingCountOf n"
proof -
  let ?N = "n * 7205759403792794"
  let ?k = "floorlog 2 ?N - 53"
  let ?q = "(4 * n) div 5"
  have N: "5 * ?N = 4 * n * 2 ^ 53 + 2 * n" by simp
  have q: "5 * ?q \<le> 4 * n" "4 * n < 5 * ?q + 5"
    by simp_all
  have "?N < 2 ^ 85" using n by simp
  then have "floorlog 2 ?N \<le> 85" by (intro floorlog_leI) simp_all
  then have k: "?k \<le> 32" by simp
  then have m: "(2::nat) ^ ?k \<le> 2 ^ 32" by (simp only: power_increasing_iff one_less_numeral_iff semiring_norm)
  have split: "(2::nat) ^ 53 = 2 ^ (53 - ?k) * 2 ^ ?k"
    using k by (simp flip: power_add)
  have low: "?q * 2 ^ 53 \<le> ?N" using q(1) N by simp
  then have "(?q * 2 ^ (53 - ?k)) * 2 ^ ?k \<le> ?N"
    by (simp only: split mult.assoc)
  then have "?q * 2 ^ (53 - ?k) \<le> ?N div 2 ^ ?k"
    by (simp only: less_eq_div_iff_mult_less_eq zero_less_power zero_less_numeral)
  then have "(?q * 2 ^ (53 - ?k)) * 2 ^ ?k \<le> (?N div 2 ^ ?k) * 2 ^ ?k"
    by (rule mult_le_mono1)
  then have a: "?q * 2 ^ 53 \<le> (?N div 2 ^ ?k) * 2 ^ ?k"
    by (simp only: split mult.assoc)
  have high: "?N + 2 ^ 32 < Suc ?q * 2 ^ 53" using q(2) N n by simp
  have lo: "?q * 2 ^ 53 \<le> roundToDouble ?N"
    using a roundToDouble_bounds [of ?N] by (rule_tac order_trans) auto
  have hi: "roundToDouble ?N < Suc ?q * 2 ^ 53"
    using high m roundToDouble_bounds [of ?N] by linarith
  have "roundToDouble ?N div 2 ^ 53 = ?q"
    using lo hi by (intro div_nat_eqI) (simp_all only: mult.commute)
  then show ?thesis by (simp only: doubleTrainingCount_def trainingCountOf_div)
qed

lemma progressData_idem [simp]:
  "progressData b g (progressData b' g' d) = progressData b g d"
  by (simp add: progressData_def)

lemma progressData_sel [simp]:
  "ds_current_batch (progressData b g d) = b" "ds_generated_count (progressData b g d) = g"
  by (simp_all add: progressData_def)

lemma progressOf_refl: "progressOf d d"
  by (simp add: progressOf_def progressData_def)

lemma progressOf_step: "progressOf d d' \<Longrightarrow> progressOf d (progressData b g d')"
proof -
  assume "progressOf d d'"
  then have "d' = progressData (ds_current_batch d') (ds_generated_count d') d"
    by (simp only: progressOf_def)
  then have "progressData b g d' = progressData b g d"
    by (metis progressData_idem)
  then show ?thesis by (simp add: progressOf_def)
qed

lemma progressOf_trans: "progressOf d d' \<Longrightarrow> progressOf d' d'' \<Longrightarrow> progressOf d d''"
proof -
  assume "progressOf d d'" and "progressOf d' d''"
  then have "d' = progressData (ds_current_batch d') (ds_generated_count d') d"
    and "d'' = progressData (ds_current_batch d'') (ds_generated_count d'') d'"
    by (simp_all only: progressOf_def)
  then have "d'' = progressData (ds_current_batch d'') (ds_generated_count d'') d"
    by (metis progressData_idem)
  then show ?thesis by (simp only: progressOf_def)
qed

lemma progressOf_status: "progressOf d d' \<Longrightarrow> ds_status d' = ds_status d"
proof -
  assume "progressOf d d'"
  then have "d' = progressData (ds_current_batch d') (ds_generated_count d') d"
    by (simp only: progressOf_def)
  then have "ds_status d' = ds_status (progressData (ds_current_batch d') (ds_generated_count d') d)"
    by simp
  then show ?thesis by (simp add: progressData_def)
qed

lemma rowProgress_refl: "rowProgress w w"
  by (simp add: rowProgress_def progressOf_refl split: option.splits)

lemma rowProgress_same: "row w' = row w \<Longrightarrow> rowProgress w w'"
  by (simp add: rowProgress_def progressOf_refl split: option.splits)

lemma rowProgress_trans: "rowProgress w w' \<Longrightarrow> rowProgress w' w'' \<Longrightarrow> rowProgress w w''"
  by (auto simp: rowProgress_def split: option.splits intro: progressOf_trans)

lemma completedData_fields:
  "ds_status (completedData c tc sc n k t d) = GenCompleted"
  "ds_content (completedData c tc sc n k t d) = Some c"
  "ds_training_content (completedData c tc sc n k t d) = Some tc"
  "ds_test_content (completedData c tc sc n k t d) = Some sc"
  "ds_num_examples (completedData c tc sc n k t d) = Some n"
  "ds_training_examples_count (completedData c tc sc n k t d) = Some k"
  "ds_test_examples_count (completedData c tc sc n k t d) = Some t"
  by (simp_all add: completedData_def)

lemma failedData_fields:
  "ds_status (failedData m d) = GenFailed" "ds_error (failedData m d) = Some m"
  by (simp_all add: failedData_def)

lemma processingData_status: "ds_status (processingData d) = GenProcessing"
  by (simp add: processingData_def)

lemma datasetUpdate_cases:
  assumes "datasetUpdate env change w = (r, w')"
  shows "(\<exists>err. r = Inl err \<and> row w' = row w) \<or>
         (\<exists>d. row w = Some d \<and> storeRejects env (storeCalls w) = None \<and>
              r = Inr (change d) \<and> row w' = Some (change d))"
  using assms by (auto simp: datasetUpdate_def Let_def split: option.splits)

lemma datasetUpdate_world:
  assumes "datasetUpdate env change w = (Inr x, w')" and "row w = Some d"
  shows "w' = w\<lparr>row := Some (change d), storeCalls := Suc (storeCalls w)\<rparr>"
  using assms by (auto simp: datasetUpdate_def Let_def split: option.splits)

lemma datasetFindUnique_world:
  assumes "datasetFindUnique env w = (r, w')"
  shows "w' = w\<lparr>storeCalls := Suc (storeCalls w)\<rparr>"
  using assms by (auto simp: datasetFindUnique_def Let_def split: option.splits)

lemma datasetUpdate_accepted:
  assumes "row w = Some d" and "storeRejects env (storeCalls w) = None"
  shows "row (snd (datasetUpdate env change w)) = Some (change d)"
  using assms by (simp add: datasetUpdate_def Let_def)

lemma datasetUpdate_storeCalls:
  "storeCalls (snd (datasetUpdate env change w)) = Suc (storeCalls w)"
  by (simp add: datasetUpdate_def Let_def split: option.splits)

lemma datasetFindUnique_row: "row (snd (datasetFindUnique env w)) = row w"
  by (simp add: datasetFindUnique_def Let_def split: option.splits)

lemma datasetFindUnique_storeCalls:
  "storeCalls (snd (datasetFindUnique env w)) = Suc (storeCalls w)"
  by (simp add: datasetFindUnique_def Let_def split: option.splits)

lemma datasetFindUnique_result:
  "datasetFindUnique env w = (Inr found, w') \<Longrightarrow> found = row w"
  by (auto simp: datasetFindUnique_def Let_def split: option.splits)

lemma callGenerateBatch_row: "row (snd (callGenerateBatch env job cnt w)) = row w"
  by (simp add: callGenerateBatch_def)

lemma retry_row:
  "retry env rt job batchCount attempts u h w = (u', h', w') \<Longrightarrow> row w' = row w"
proof (induction env rt job batchCount attempts u h w rule: retry.induct)
  case (1 env rt job batchCount attempts u h w)
  show ?case
  proof (cases "int (length u) < batchCount \<and> attempts < 3")
    case False
    with "1.prems" show ?thesis by simp
  next
    case True
    obtain additional w1 where c: "callGenerateBatch env job (batchCount - int (length u)) w = (additional, w1)"
      by (cases "callGenerateBatch env job (batchCount - int (length u)) w")
    obtain u1 h1 where t: "topUp rt (existingHashes env) batchCount additional u h = (u1, h1)"
      by (cases "topUp rt (existingHashes env) batchCount additional u h")
    from True c t "1.prems" have r: "retry env rt job batchCount (attempts + 1) u1 h1 w1 = (u', h', w')"
      by (simp add: Let_def)
    have "row w' = row w1"
      using "1.IH" [OF True refl refl c [symmetric] refl t [symmetric] r] .
    moreover have "row w1 = row w"
      using callGenerateBatch_row [of env job "batchCount - int (length u)" w] c by simp
    ultimately show ?thesis by simp
  qed
qed

lemma processBatch_rowProgress:
  assumes "processBatch env rt job batch batchCount allExamples hashes w = (a', h', w')"
  shows "rowProgress w w'"
proof -
  obtain batchExamples w1 where c: "callGenerateBatch env job batchCount w = (batchExamples, w1)"
    by (cases "callGenerateBatch env job batchCount w")
  obtain u1 h1 where k: "keepUnique rt (existingHashes env) batchExamples [] hashes = (u1, h1)"
    by (cases "keepUnique rt (existingHashes env) batchExamples [] hashes")
  obtain u2 h2 w2 where r: "retry env rt job batchCount 0 u1 h1 w1 = (u2, h2, w2)"
    by (cases "retry env rt job batchCount 0 u1 h1 w1")
  obtain res w3 where u: "datasetUpdate env (progressData (batch + 1) (int (length (allExamples @ u2)))) w2 = (res, w3)"
    by (cases "datasetUpdate env (progressData (batch + 1) (int (length (allExamples @ u2)))) w2")
  from assms c k r u have w': "w' = w3"
    by (simp add: processBatch_def Let_def)
  have "row w1 = row w" using callGenerateBatch_row [of env job batchCount w] c by simp
  moreover have "row w2 = row w1" using r by (rule retry_row)
  ultimately have eq: "row w2 = row w" by simp
  from datasetUpdate_cases [OF u] have "rowProgress w2 w3"
    by (auto simp: rowProgress_def progressOf_refl intro: progressOf_step [OF progressOf_refl]
        split: option.splits)
  with eq w' show ?thesis by (simp add: rowProgress_def)
qed

lemma batches_rowProgress:
  "batches env rt job targetExamples batch allExamples hashes w = (a', h', w') \<Longrightarrow> rowProgress w w'"
proof (induction env rt job targetExamples batch allExamples hashes w rule: batches.induct)
  case (1 env rt job targetExamples batch allExamples hashes w)
  let ?bc = "min 5 (targetExamples - batch * 5)"
  show ?case
  proof (cases "batch < ds_total_batches job \<and> \<not> ?bc \<le> 0")
    case False
    with "1.prems" have "w' = w" by (auto simp: Let_def split: if_splits)
    then show ?thesis by (simp add: rowProgress_refl)
  next
    case True
    obtain a1 h1 w1 where p: "processBatch env rt job batch ?bc allExamples hashes w = (a1, h1, w1)"
      by (cases "processBatch env rt job batch ?bc allExamples hashes w")
    from True p "1.prems" have b: "batches env rt job targetExamples (batch + 1) a1 h1 w1 = (a', h', w')"
      by (simp add: Let_def)
    from True have t1: "batch < ds_total_batches job" and t2: "\<not> ?bc \<le> 0" by simp_all
    have "rowProgress w1 w'"
      using "1.IH" [OF t1 refl t2 p [symmetric] refl b] .
    moreover have "rowProgress w w1" using p by (rule processBatch_rowProgress)
    ultimately show ?thesis by (blast intro: rowProgress_trans)
  qed
qed

lemma finish_unfold:
  "finish env allExamples w =
     (if allExamples = [] then (Some ''No valid examples generated after validation'', w)
      else if \<not> validateJSONL (convertToJSONL allExamples)
      then (Some ''Generated JSONL content is invalid'', w)
      else case datasetUpdate env
                 (completedData (convertToJSONL allExamples)
                    (convertToJSONL (take (trainingCountOf (length allExamples)) allExamples))
                    (convertToJSONL (drop (trainingCountOf (length allExamples)) allExamples))
                    (length allExamples) (trainingCountOf (length allExamples))
                    (length allExamples - trainingCountOf (length allExamples))) w of
             (Inl err, w') \<Rightarrow> (Some err, w')
           | (Inr completedDataset, w') \<Rightarrow> (None, w'))"
proof -
  have v: "filter wellFormed allExamples = allExamples"
    by (simp add: wellFormed_def)
  have k: "min (length allExamples) (trainingCountOf (length allExamples)) =
           trainingCountOf (length allExamples)"
    using trainingCountOf_le [of "length allExamples"] by simp
  show ?thesis
    unfolding finish_def Let_def v by (simp add: k)
qed

lemma finish_cases:
  assumes "finish env allExamples w = (r, w')"
  shows "(\<exists>err. r = Some err \<and> row w' = row w) \<or>
         (r = None \<and> allExamples \<noteq> [] \<and>
          (\<exists>d. row w = Some d \<and>
               row w' = Some (completedData (convertToJSONL allExamples)
                 (convertToJSONL (take (trainingCountOf (length allExamples)) allExamples))
                 (convertToJSONL (drop (trainingCountOf (length allExamples)) allExamples))
                 (length allExamples) (trainingCountOf (length allExamples))
                 (length allExamples - trainingCountOf (length allExamples)) d)))"
proof -
  let ?k = "trainingCountOf (length allExamples)"
  let ?change = "completedData (convertToJSONL allExamples)
                 (convertToJSONL (take ?k allExamples)) (convertToJSONL (drop ?k allExamples))
                 (length allExamples) ?k (length allExamples - ?k)"
  show ?thesis
  proof (cases "allExamples = [] \<or> \<not> validateJSONL (convertToJSONL allExamples)")
    case True
    with assms have "row w' = row w \<and> r \<noteq> None"
      by (auto simp: finish_unfold split: if_splits)
    then show ?thesis by auto
  next
    case False
    obtain res w1 where u: "datasetUpdate env ?change w = (res, w1)"
      by (cases "datasetUpdate env ?change w")
    from False assms u have rw: "(r, w') = (case res of Inl err \<Rightarrow> (Some err, w1) | Inr x \<Rightarrow> (None, w1))"
      by (simp add: finish_unfold)
    from datasetUpdate_cases [OF u] show ?thesis
    proof
      assume "\<exists>err. res = Inl err \<and> row w1 = row w"
      with rw show ?thesis by auto
    next
      assume "\<exists>d. row w = Some d \<and> storeRejects env (storeCalls w) = None \<and>
              res = Inr (?change d) \<and> row w1 = Some (?change d)"
      with rw False show ?thesis by auto
    qed
  qed
qed

lemma tryBlock_cases:
  assumes t: "tryBlock env rt w = (r, w')" and d: "row w = Some d"
  shows "(\<exists>err d'. r = Some err \<and> row w' = Some d' \<and>
            (ds_status d' = ds_status d \<or> ds_status d' = GenProcessing)) \<or>
         (r = None \<and> (\<exists>allExamples hashes w3 d3.
            batches env rt (processingData d)
              (case ds_target_examples d of Some t \<Rightarrow> t | None \<Rightarrow> ds_total_batches d * 5)
              0 [] {} (w\<lparr>row := Some (processingData d), storeCalls := storeCalls w + 2\<rparr>) =
              (allExamples, hashes, w3) \<and>
            allExamples \<noteq> [] \<and> row w' = Some (completedFrom allExamples d3)))"
proof -
  obtain res1 w1 where u1: "datasetUpdate env processingData w = (res1, w1)"
    by (cases "datasetUpdate env processingData w")
  from datasetUpdate_cases [OF u1] show ?thesis
  proof
    assume "\<exists>err. res1 = Inl err \<and> row w1 = row w"
    with t u1 d show ?thesis by (auto simp: tryBlock_def)
  next
    assume "\<exists>d0. row w = Some d0 \<and> storeRejects env (storeCalls w) = None \<and>
              res1 = Inr (processingData d0) \<and> row w1 = Some (processingData d0)"
    with d have res1: "res1 = Inr (processingData d)" and w1: "row w1 = Some (processingData d)"
      by auto
    from u1 res1 d
    have w1_eq: "w1 = w\<lparr>row := Some (processingData d), storeCalls := Suc (storeCalls w)\<rparr>"
      by (simp add: datasetUpdate_world)
    obtain res2 w2 where f: "datasetFindUnique env w1 = (res2, w2)"
      by (cases "datasetFindUnique env w1")
    have w2: "row w2 = Some (processingData d)"
      using datasetFindUnique_row [of env w1] f w1 by simp
    from datasetFindUnique_world [OF f] w1_eq
    have w2_eq: "w2 = w\<lparr>row := Some (processingData d), storeCalls := storeCalls w + 2\<rparr>"
      by simp
    show ?thesis
    proof (cases res2)
      case (Inl err)
      with t u1 res1 f w2 show ?thesis
        by (auto simp: tryBlock_def processingData_status)
    next
      case (Inr found)
      with f have "found = row w1" by (simp add: datasetFindUnique_result)
      with w1 have found: "found = Some (processingData d)" by simp
      let ?job = "processingData d"
      show ?thesis
      proof (cases "orElse (OPENAI_API_KEY env) [] = []")
        case True
        with t u1 res1 f Inr found w2 show ?thesis
          by (auto simp: tryBlock_def processingData_status)
      next
        case False
        let ?target = "case ds_target_examples ?job of Some t \<Rightarrow> t | None \<Rightarrow> ds_total_batches ?job * 5"
        have target: "?target =
            (case ds_target_examples d of Some t \<Rightarrow> t | None \<Rightarrow> ds_total_batches d * 5)"
          by (simp add: processingData_def split: option.splits)
        obtain allExamples hashes w3
          where b: "batches env rt ?job ?target 0 [] {} w2 = (allExamples, hashes, w3)"
          by (cases "batches env rt ?job ?target 0 [] {} w2")
        from t u1 res1 f Inr found False b have fin: "finish env allExamples w3 = (r, w')"
          by (simp add: tryBlock_def Let_def)
        from batches_rowProgress [OF b] w2 obtain d3
          where w3: "row w3 = Some d3" and p: "progressOf ?job d3"
          by (auto simp: rowProgress_def)
        from progressOf_status [OF p] have s3: "ds_status d3 = GenProcessing"
          by (simp add: processingData_status)
        from b have b': "batches env rt (processingData d)
              (case ds_target_examples d of Some t \<Rightarrow> t | None \<Rightarrow> ds_total_batches d * 5)
              0 [] {} (w\<lparr>row := Some (processingData d), storeCalls := storeCalls w + 2\<rparr>) =
              (allExamples, hashes, w3)"
          by (simp only: target w2_eq)
        from finish_cases [OF fin] show ?thesis
        proof
          assume "\<exists>err. r = Some err \<and> row w' = row w3"
          with w3 s3 show ?thesis by auto
        next
          assume "r = None \<and> allExamples \<noteq> [] \<and>
            (\<exists>d. row w3 = Some d \<and>
               row w' = Some (completedData (convertToJSONL allExamples)
                 (convertToJSONL (take (trainingCountOf (length allExamples)) allExamples))
                 (convertToJSONL (drop (trainingCountOf (length allExamples)) allExamples))
                 (length allExamples) (trainingCountOf (length allExamples))
                 (length allExamples - trainingCountOf (length allExamples)) d))"
          with w3 have "r = None \<and> allExamples \<noteq> [] \<and> row w' = Some (completedFrom allExamples d3)"
            by (auto simp: completedFrom_def)
          with b' show ?thesis by blast
        qed
      qed
    qed
  qed
qed

lemma tryBlock_no_row:
  assumes t: "tryBlock env rt w = (r, w')" and n: "row w = None"
  shows "r \<noteq> None \<and> row w' = None"
proof -
  obtain res1 w1 where u1: "datasetUpdate env processingData w = (res1, w1)"
    by (cases "datasetUpdate env processingData w")
  from datasetUpdate_cases [OF u1] n have "\<exists>err. res1 = Inl err \<and> row w1 = row w"
    by auto
  with t u1 n show ?thesis by (auto simp: tryBlock_def)
qed

lemma catchBlock_cases:
  assumes "row w = Some d"
  shows "row (catchBlock env errorMessage w) = Some d \<or>
         row (catchBlock env errorMessage w) = Some (failedData errorMessage d)"
proof -
  obtain res1 w1 where f: "datasetFindUnique env w = (res1, w1)"
    by (cases "datasetFindUnique env w")
  obtain res2 w2 where u: "datasetUpdate env (failedData errorMessage) w1 = (res2, w2)"
    by (cases "datasetUpdate env (failedData errorMessage) w1")
  have w1: "row w1 = Some d" using datasetFindUnique_row [of env w] f assms by simp
  have c: "catchBlock env errorMessage w = w2"
    using f u by (simp add: catchBlock_def)
  from datasetUpdate_cases [OF u] w1 c show ?thesis by auto
qed

lemma catchBlock_accepted:
  assumes "row w = Some d" and "storeRejects env (Suc (storeCalls w)) = None"
  shows "row (catchBlock env errorMessage w) = Some (failedData errorMessage d)"
proof -
  obtain res1 w1 where f: "datasetFindUnique env w = (res1, w1)"
    by (cases "datasetFindUnique env w")
  have w1: "row w1 = Some d" using datasetFindUnique_row [of env w] f assms by simp
  have c1: "storeCalls w1 = Suc (storeCalls w)"
    using datasetFindUnique_storeCalls [of env w] f by simp
  have "row (snd (datasetUpdate env (failedData errorMessage) w1)) = Some (failedData errorMessage d)"
    using w1 assms(2) c1 by (simp add: datasetUpdate_accepted)
  then show ?thesis using f by (auto simp: catchBlock_def split: prod.splits)
qed

subsection \<open>The 80/20 split of a completed job\<close>

text \<open>
  C2. When a job that was not completed before ends a run in status \<open>completed\<close>, its
  row was written from the list \<open>allExamples\<close> that the batch loop returned in that run.
  The loop is entered with the job as it is read after the update to \<open>processing\<close>, and
  after the two calls of the record store that precede it. The validated examples are the
  accumulated ones; there are \<open>n \<ge> 1\<close> of them, \<open>num_examples\<close> is \<open>n\<close>,
  \<open>training_examples_count\<close> is \<open>\<lfloor>0.8 n\<rfloor>\<close>, the two counts add up to \<open>n\<close>, and the training
  and test contents are the JSONL texts of the first \<open>\<lfloor>0.8 n\<rfloor>\<close> accumulated examples and of
  the remaining ones, in the order in which the loop accumulated them.
\<close>

theorem completed_job_split:
  assumes "row w = Some d" and "ds_status d \<noteq> GenCompleted"
    and "row (processGenerationJob env rt w) = Some d'" and "ds_status d' = GenCompleted"
  shows "\<exists>allExamples hashes w3 validatedExamples n k.
           batches env rt (processingData d)
             (case ds_target_examples d of Some t \<Rightarrow> t | None \<Rightarrow> ds_total_batches d * 5)
             0 [] {} (w\<lparr>row := Some (processingData d), storeCalls := storeCalls w + 2\<rparr>) =
             (allExamples, hashes, w3) \<and>
           validatedExamples = filter wellFormed allExamples \<and>
           validatedExamples = allExamples \<and>
           n = length validatedExamples \<and> 1 \<le> n \<and>
           int k = \<lfloor>0.8 * real n\<rfloor> \<and>
           ds_num_examples d' = Some n \<and>
           ds_training_examples_count d' = Some k \<and>
           ds_test_examples_count d' = Some (n - k) \<and>
           k + (n - k) = n \<and>
           ds_content d' = Some (convertToJSONL validatedExamples) \<and>
           ds_training_content d' = Some (convertToJSONL (take k validatedExamples)) \<and>
           ds_test_content d' = Some (convertToJSONL (drop k validatedExamples))"
proof -
  obtain r w1 where t: "tryBlock env rt w = (r, w1)"
    by (cases "tryBlock env rt w")
  from tryBlock_cases [OF t assms(1)] show ?thesis
  proof
    assume "\<exists>err d1. r = Some err \<and> row w1 = Some d1 \<and>
            (ds_status d1 = ds_status d \<or> ds_status d1 = GenProcessing)"
    then obtain err d1 where r: "r = Some err" and w1: "row w1 = Some d1"
      and s1: "ds_status d1 \<noteq> GenCompleted"
      using assms(2) by auto
    from t r have "processGenerationJob env rt w = catchBlock env err w1"
      by (simp add: processGenerationJob_def)
    with catchBlock_cases [OF w1, of env err] assms(3)
    have "d' = d1 \<or> d' = failedData err d1" by auto
    with s1 assms(4) show ?thesis by (auto simp: failedData_fields)
  next
    assume "r = None \<and> (\<exists>allExamples hashes w3 d3.
            batches env rt (processingData d)
              (case ds_target_examples d of Some t \<Rightarrow> t | None \<Rightarrow> ds_total_batches d * 5)
              0 [] {} (w\<lparr>row := Some (processingData d), storeCalls := storeCalls w + 2\<rparr>) =
              (allExamples, hashes, w3) \<and>
            allExamples \<noteq> [] \<and> row w1 = Some (completedFrom allExamples d3))"
    then obtain v hashes w3 d3 where r: "r = None"
      and b: "batches env rt (processingData d)
              (case ds_target_examples d of Some t \<Rightarrow> t | None \<Rightarrow> ds_total_batches d * 5)
              0 [] {} (w\<lparr>row := Some (processingData d), storeCalls := storeCalls w + 2\<rparr>) =
              (v, hashes, w3)"
      and v: "v \<noteq> []"
      and w1: "row w1 = Some (completedFrom v d3)" by auto
    from t r have "processGenerationJob env rt w = w1"
      by (simp add: processGenerationJob_def)
    with w1 assms(3) have d': "d' = completedFrom v d3" by simp
    let ?n = "length v" and ?k = "trainingCountOf (length v)"
    have k: "int ?k = \<lfloor>0.8 * real ?n\<rfloor>"
      by (simp add: trainingCountOf_def mult.commute)
    have le: "?k \<le> ?n" by (rule trainingCountOf_le)
    have f: "v = filter wellFormed v" by (simp add: wellFormed_def)
    have "?n = length v \<and> 1 \<le> ?n \<and> int ?k = \<lfloor>0.8 * real ?n\<rfloor> \<and>
           ds_num_examples d' = Some ?n \<and>
           ds_training_examples_count d' = Some ?k \<and>
           ds_test_examples_count d' = Some (?n - ?k) \<and>
           ?k + (?n - ?k) = ?n \<and>
           ds_content d' = Some (convertToJSONL v) \<and>
           ds_training_content d' = Some (convertToJSONL (take ?k v)) \<and>
           ds_test_content d' = Some (convertToJSONL (drop ?k v))"
      using v le k unfolding d' completedFrom_def completedData_fields
      by (simp add: Suc_le_eq)
    with b f show ?thesis by blast
  qed
qed

theorem completed_job_split_witness:
  "row startWorld = Some pendingJob \<and> ds_status pendingJob \<noteq> GenCompleted \<and>
   ds_status (the (row (processGenerationJob offlineEnvironment plainRuntime startWorld))) =
     GenCompleted \<and>
   fst (batches offlineEnvironment plainRuntime (processingData pendingJob)
          (case ds_target_examples pendingJob of
             Some t \<Rightarrow> t | None \<Rightarrow> ds_total_batches pendingJob * 5)
          0 [] {}
          (startWorld\<lparr>row := Some (processingData pendingJob),
                       storeCalls := storeCalls startWorld + 2\<rparr>)) =
     [fallbackExample ''Billing'' ''Questions about invoices.'' 0, fallbackExample ''Billing'' ''Questions about invoices.'' 1] \<and>
   ds_num_examples (the (row (processGenerationJob offlineEnvironment plainRuntime startWorld))) =
     Some 2 \<and>
   ds_training_examples_count
     (the (row (processGenerationJob offlineEnvironment plainRuntime startWorld))) = Some 1 \<and>
   ds_test_examples_count
     (the (row (processGenerationJob offlineEnvironment plainRuntime startWorld))) = Some 1 \<and>
   ds_content (the (row (processGenerationJob offlineEnvironment plainRuntime startWorld))) =
     Some (convertToJSONL [fallbackExample ''Billing'' ''Questions about invoices.'' 0, fallbackExample ''Billing'' ''Questions about invoices.'' 1]) \<and>
   ds_training_content
     (the (row (processGenerationJob offlineEnvironment plainRuntime startWorld))) =
     Some (convertToJSONL [fallbackExample ''Billing'' ''Questions about invoices.'' 0]) \<and>
   ds_test_content (the (row (processGenerationJob offlineEnvironment plainRuntime startWorld))) =
     Some (convertToJSONL [fallbackExample ''Billing'' ''Questions about invoices.'' 1])"
proof -
  let ?run = "processGenerationJob offlineEnvironment plainRuntime startWorld"
  let ?loop = "batches offlineEnvironment plainRuntime (processingData pendingJob)
          (case ds_target_examples pendingJob of
             Some t \<Rightarrow> t | None \<Rightarrow> ds_total_batches pendingJob * 5)
          0 [] {}
          (startWorld\<lparr>row := Some (processingData pendingJob),
                       storeCalls := storeCalls startWorld + 2\<rparr>)"
  have h1: "row startWorld = Some pendingJob"
    by (simp add: startWorld_def)
  have h2: "ds_status pendingJob \<noteq> GenCompleted"
    by (simp add: pendingJob_def)
  have s: "map_option ds_status (row ?run) = Some GenCompleted"
    by code_simp
  then have h3: "row ?run = Some (the (row ?run))"
    by auto
  from s have h4: "ds_status (the (row ?run)) = GenCompleted"
    by auto
  have l: "fst ?loop = [fallbackExample ''Billing'' ''Questions about invoices.'' 0, fallbackExample ''Billing'' ''Questions about invoices.'' 1]"
    by code_simp
  have two: "\<lfloor>0.8 * real 2\<rfloor> = (1::int)"
    by (simp add: floor_eq_iff)
  from completed_job_split [OF h1 h2 h3 h4] obtain allExamples hashes w3 k
    where b: "?loop = (allExamples, hashes, w3)"
      and k: "int k = \<lfloor>0.8 * real (length allExamples)\<rfloor>"
      and n: "ds_num_examples (the (row ?run)) = Some (length allExamples)"
      and tr: "ds_training_examples_count (the (row ?run)) = Some k"
      and te: "ds_test_examples_count (the (row ?run)) = Some (length allExamples - k)"
      and c: "ds_content (the (row ?run)) = Some (convertToJSONL allExamples)"
      and tc: "ds_training_content (the (row ?run)) = Some (convertToJSONL (take k allExamples))"
      and sc: "ds_test_content (the (row ?run)) = Some (convertToJSONL (drop k allExamples))"
    by auto
  from b l have a: "allExamples = [fallbackExample ''Billing'' ''Questions about invoices.'' 0, fallbackExample ''Billing'' ''Questions about invoices.'' 1]"
    by simp
  from k a two have k1: "k = 1" by simp
  show ?thesis
    using h1 h2 h4 l n tr te c tc sc unfolding a k1 by simp
qed

subsection \<open>Exit states of the runner\<close>

lemma completed_exit:
  assumes "tryBlock env rt w = (None, w1)"
  shows "\<exists>d. row (processGenerationJob env rt w) = Some d \<and> ds_status d = GenCompleted"
proof (cases "row w")
  case None
  with tryBlock_no_row [OF assms] show ?thesis by simp
next
  case (Some d)
  from tryBlock_cases [OF assms Some] obtain v d3
    where "row w1 = Some (completedFrom v d3)" by auto
  with assms show ?thesis
    by (simp add: processGenerationJob_def completedFrom_def completedData_fields)
qed

text \<open>
  C7, as the claim states it, fails: the update that records the failure is itself a
  call of the record store, and the runner ignores its rejection. With a store that
  becomes unreachable after the progress update of the only batch, the completing update
  throws, the handler cannot write the failed status, and the runner returns with the job
  still in \<open>processing\<close>.
\<close>

theorem runner_left_processing:
  "fst (tryBlock outageEnvironment plainRuntime startWorld) = Some ''Can not reach database server'' \<and>
   map_option ds_status (row (snd (tryBlock outageEnvironment plainRuntime startWorld))) =
     Some GenProcessing \<and>
   map_option ds_status (row (processGenerationJob outageEnvironment plainRuntime startWorld)) =
     Some GenProcessing"
  by code_simp

text \<open>
  C7, amended: when an exception leaves the \<open>try\<close> block and the record store accepts
  the update of the handler, the runner returns with the job in status \<open>failed\<close> and the
  message of the exception in its error field, the rest of the row unchanged.
\<close>

theorem exception_recorded:
  assumes "tryBlock env rt w = (Some errorMessage, w1)"
    and "row w1 = Some d"
    and "storeRejects env (Suc (storeCalls w1)) = None"
  shows "row (processGenerationJob env rt w) = Some (failedData errorMessage d) \<and>
         ds_status (failedData errorMessage d) = GenFailed \<and>
         ds_error (failedData errorMessage d) = Some errorMessage"
proof -
  from assms(1) have "processGenerationJob env rt w = catchBlock env errorMessage w1"
    by (simp add: processGenerationJob_def)
  with catchBlock_accepted [OF assms(2) assms(3)] show ?thesis
    by (simp add: failedData_fields)
qed

theorem exception_recorded_witness:
  "tryBlock keylessEnvironment plainRuntime startWorld =
     (Some ''OPENAI_API_KEY not configured'',
      \<lparr>row = Some (processingData pendingJob), storeCalls = 2, completionCalls = 0\<rparr>) \<and>
   storeRejects keylessEnvironment 3 = None \<and>
   row (processGenerationJob keylessEnvironment plainRuntime startWorld) =
     Some (failedData ''OPENAI_API_KEY not configured'' (processingData pendingJob)) \<and>
   ds_status (failedData ''OPENAI_API_KEY not configured'' (processingData pendingJob)) = GenFailed \<and>
   ds_error (failedData ''OPENAI_API_KEY not configured'' (processingData pendingJob)) =
     Some ''OPENAI_API_KEY not configured''"
proof -
  let ?w1 = "\<lparr>row = Some (processingData pendingJob), storeCalls = 2, completionCalls = 0\<rparr>"
  have h1: "tryBlock keylessEnvironment plainRuntime startWorld =
              (Some ''OPENAI_API_KEY not configured'', ?w1)"
    by code_simp
  have h2: "row ?w1 = Some (processingData pendingJob)" by simp
  have h3: "storeRejects keylessEnvironment (Suc (storeCalls ?w1)) = None"
    by (simp add: keylessEnvironment_def)
  show ?thesis
    using h1 h3 exception_recorded [OF h1 h2 h3] by simp
qed

subsection \<open>Fingerprints of the accepted examples\<close>

lemma fresh_snoc:
  assumes "fresh rt existing examples seen"
    and "createExampleHash rt ex \<notin> existing" and "createExampleHash rt ex \<notin> seen"
  shows "fresh rt existing (examples @ [ex]) (insert (createExampleHash rt ex) seen)"
  using assms unfolding fresh_def by auto

lemma keepUnique_fresh:
  assumes "fresh rt existing (allExamples @ u) seen"
    and "keepUnique rt existing exs u seen = (u', seen')"
  shows "fresh rt existing (allExamples @ u') seen'"
  using assms
proof (induction exs arbitrary: u seen)
  case Nil
  then show ?case by simp
next
  case (Cons ex exs)
  show ?case
  proof (cases "createExampleHash rt ex \<in> existing \<or> createExampleHash rt ex \<in> seen")
    case True
    with Cons.prems(2) have "keepUnique rt existing exs u seen = (u', seen')"
      by (simp add: Let_def)
    with Cons.IH Cons.prems(1) show ?thesis by blast
  next
    case False
    with Cons.prems(2) have k: "keepUnique rt existing exs (u @ [ex])
        (insert (createExampleHash rt ex) seen) = (u', seen')"
      by (simp add: Let_def)
    from False Cons.prems(1) have "fresh rt existing ((allExamples @ u) @ [ex])
        (insert (createExampleHash rt ex) seen)"
      by (intro fresh_snoc) auto
    then have "fresh rt existing (allExamples @ (u @ [ex]))
        (insert (createExampleHash rt ex) seen)" by simp
    from Cons.IH [OF this k] show ?thesis .
  qed
qed

lemma topUp_fresh:
  assumes "fresh rt existing (allExamples @ u) seen"
    and "topUp rt existing batchCount exs u seen = (u', seen')"
  shows "fresh rt existing (allExamples @ u') seen'"
  using assms
proof (induction exs arbitrary: u seen)
  case Nil
  then show ?case by simp
next
  case (Cons ex exs)
  show ?case
  proof (cases "createExampleHash rt ex \<in> existing \<or> createExampleHash rt ex \<in> seen")
    case True
    with Cons.prems(2) have "topUp rt existing batchCount exs u seen = (u', seen')"
      by (simp add: Let_def)
    with Cons.IH Cons.prems(1) show ?thesis by blast
  next
    case False
    from False Cons.prems(1) have "fresh rt existing ((allExamples @ u) @ [ex])
        (insert (createExampleHash rt ex) seen)"
      by (intro fresh_snoc) auto
    then have f: "fresh rt existing (allExamples @ (u @ [ex]))
        (insert (createExampleHash rt ex) seen)" by simp
    show ?thesis
    proof (cases "batchCount \<le> int (length (u @ [ex]))")
      case True
      with False Cons.prems(2) have "u' = u @ [ex]"
        and "seen' = insert (createExampleHash rt ex) seen"
        by (simp_all add: Let_def)
      with f show ?thesis by simp
    next
      case b: False
      with False Cons.prems(2) have k: "topUp rt existing batchCount exs (u @ [ex])
          (insert (createExampleHash rt ex) seen) = (u', seen')"
        by (simp add: Let_def)
      from Cons.IH [OF f k] show ?thesis .
    qed
  qed
qed

lemma retry_fresh:
  "fresh rt (existingHashes env) (allExamples @ u) h \<Longrightarrow>
   retry env rt job batchCount attempts u h w = (u', h', w') \<Longrightarrow>
   fresh rt (existingHashes env) (allExamples @ u') h'"
proof (induction env rt job batchCount attempts u h w rule: retry.induct)
  case (1 env rt job batchCount attempts u h w)
  show ?case
  proof (cases "int (length u) < batchCount \<and> attempts < 3")
    case False
    with "1.prems" show ?thesis by simp
  next
    case True
    obtain additional w1
      where c: "callGenerateBatch env job (batchCount - int (length u)) w = (additional, w1)"
      by (cases "callGenerateBatch env job (batchCount - int (length u)) w")
    obtain u1 h1
      where t: "topUp rt (existingHashes env) batchCount additional u h = (u1, h1)"
      by (cases "topUp rt (existingHashes env) batchCount additional u h")
    from True c t "1.prems"(2)
    have r: "retry env rt job batchCount (attempts + 1) u1 h1 w1 = (u', h', w')"
      by (simp add: Let_def)
    have f: "fresh rt (existingHashes env) (allExamples @ u1) h1"
      using "1.prems"(1) t by (rule topUp_fresh)
    show ?thesis
      using "1.IH" [OF True refl refl c [symmetric] refl t [symmetric] f r] .
  qed
qed

lemma processBatch_fresh:
  assumes "fresh rt (existingHashes env) allExamples hashes"
    and "processBatch env rt job batch batchCount allExamples hashes w = (a', h', w')"
  shows "fresh rt (existingHashes env) a' h'"
proof -
  obtain batchExamples w1 where c: "callGenerateBatch env job batchCount w = (batchExamples, w1)"
    by (cases "callGenerateBatch env job batchCount w")
  obtain u1 h1 where k: "keepUnique rt (existingHashes env) batchExamples [] hashes = (u1, h1)"
    by (cases "keepUnique rt (existingHashes env) batchExamples [] hashes")
  obtain u2 h2 w2 where r: "retry env rt job batchCount 0 u1 h1 w1 = (u2, h2, w2)"
    by (cases "retry env rt job batchCount 0 u1 h1 w1")
  from assms(2) c k r have a': "a' = allExamples @ u2" and h': "h' = h2"
    by (simp_all add: processBatch_def Let_def split: prod.splits)
  from assms(1) have "fresh rt (existingHashes env) (allExamples @ []) hashes" by simp
  then have "fresh rt (existingHashes env) (allExamples @ u1) h1"
    using k by (rule keepUnique_fresh)
  then have "fresh rt (existingHashes env) (allExamples @ u2) h2"
    using r by (rule retry_fresh)
  with a' h' show ?thesis by simp
qed

lemma batches_fresh:
  "fresh rt (existingHashes env) allExamples hashes \<Longrightarrow>
   batches env rt job targetExamples batch allExamples hashes w = (a', h', w') \<Longrightarrow>
   fresh rt (existingHashes env) a' h'"
proof (induction env rt job targetExamples batch allExamples hashes w rule: batches.induct)
  case (1 env rt job targetExamples batch allExamples hashes w)
  let ?bc = "min 5 (targetExamples - batch * 5)"
  show ?case
  proof (cases "batch < ds_total_batches job \<and> \<not> ?bc \<le> 0")
    case False
    with "1.prems" show ?thesis by (auto simp: Let_def split: if_splits)
  next
    case True
    obtain a1 h1 w1
      where p: "processBatch env rt job batch ?bc allExamples hashes w = (a1, h1, w1)"
      by (cases "processBatch env rt job batch ?bc allExamples hashes w")
    from True p "1.prems"(2)
    have b: "batches env rt job targetExamples (batch + 1) a1 h1 w1 = (a', h', w')"
      by (simp add: Let_def)
    from True have t1: "batch < ds_total_batches job" and t2: "\<not> ?bc \<le> 0" by simp_all
    have f: "fresh rt (existingHashes env) a1 h1"
      using "1.prems"(1) p by (rule processBatch_fresh)
    show ?thesis
      using "1.IH" [OF t1 refl t2 p [symmetric] refl f b] .
  qed
qed

text \<open>
  The examples that the batch loop accumulates have pairwise distinct fingerprints, none
  of which is in the global set.
\<close>

lemma accepted_fingerprints:
  assumes "batches env rt job targetExamples 0 [] {} w = (allExamples, hashes, w')"
  shows "distinct (map (createExampleHash rt) allExamples) \<and>
         (\<forall>ex \<in> set allExamples. createExampleHash rt ex \<notin> existingHashes env)"
proof -
  have "fresh rt (existingHashes env) [] {}" by (simp add: fresh_def)
  then have "fresh rt (existingHashes env) allExamples hashes"
    using assms by (rule batches_fresh)
  then show ?thesis by (auto simp: fresh_def)
qed

text \<open>
  C1 is about the examples written into the content, and those are not the accumulated
  ones: \<open>convertToJSONL\<close> drops the messages that are blank after trimming, while the
  fingerprint keeps them. The provider's answer below has two entries with different
  fingerprints; both are accepted, and both are written as the same line, so that the
  completed content holds the same example twice.
\<close>

theorem written_twice:
  "generateBatch ''Billing'' ''Questions about invoices.'' 2 ''chat'' twinAnswer =
     [paddedGreeting, greeting] \<and>
   createExampleHash plainRuntime paddedGreeting \<noteq> createExampleHash plainRuntime greeting \<and>
   writtenExamples [paddedGreeting, greeting] = [greeting, greeting] \<and>
   map_option ds_status (row (processGenerationJob twinEnvironment plainRuntime startWorld)) =
     Some GenCompleted \<and>
   map_option ds_content (row (processGenerationJob twinEnvironment plainRuntime startWorld)) =
     Some (Some (stringifyExample greeting @ [CHR 0x0A] @ stringifyExample greeting))"
  by code_simp

section \<open>Properties of the fine-tune job lifecycle manager\<close>

subsection \<open>Store updates\<close>

lemma updateJob_Some:
  "jobs db job_id = Some j \<Longrightarrow>
   updateJob job_id change db = Some (db\<lparr>jobs := (jobs db)(job_id \<mapsto> change j)\<rparr>)"
  by (simp add: updateJob_def)

lemma updateBot_Some:
  "bots db bot_id = Some b \<Longrightarrow>
   updateBot bot_id change db = Some (db\<lparr>bots := (bots db)(bot_id \<mapsto> change b)\<rparr>)"
  by (simp add: updateBot_def)

lemma updateBot_jobs: "updateBot bot_id change db = Some db' \<Longrightarrow> jobs db' = jobs db"
  by (auto simp: updateBot_def split: option.splits)

lemma propagateToParent_jobs:
  "jobs (propagateToParent job m db) q =
     (if truthy (job_parent_job_id job) \<and> q = the (job_parent_job_id job)
      then map_option (\<lambda>parent. parent\<lparr>job_fine_tuned_model_id := m\<rparr>) (jobs db q)
      else jobs db q)"
  by (auto simp: propagateToParent_def updateJob_def split: option.splits)

lemma updateBotFor_jobs:
  assumes "updateBotFor openaiJob job db = Some db'"
  shows "jobs db' q = jobs db q \<or>
         (truthy (job_parent_job_id job) \<and> q = the (job_parent_job_id job) \<and>
          jobs db' q = map_option (\<lambda>parent. parent\<lparr>job_fine_tuned_model_id :=
             firstTruthy (oj_fine_tuned_model openaiJob) (oj_fine_tuned_model_id openaiJob)\<rparr>)
               (jobs db q))"
  using assms
  by (auto simp: updateBotFor_def Let_def propagateToParent_jobs
      dest!: updateBot_jobs split: if_splits option.splits)

lemma GET_step:
  assumes j: "jobs db job_id = Some job"
    and h: "truthy (job_openai_job_id job)" and k: "truthy apiKey"
  shows "\<exists>job'. jobs (snd (GET apiKey answer job_id db)) job_id = Some job' \<and>
           job_openai_job_id job' = job_openai_job_id job \<and>
           job_status job' =
             (case answer of
                NoAnswer \<Rightarrow> job_status job
              | Answer openaiJob \<Rightarrow> orElse (oj_status openaiJob) (job_status job))"
proof (cases answer)
  case NoAnswer
  with j h k show ?thesis by (simp add: GET_def)
next
  case (Answer openaiJob)
  let ?db1 = "db\<lparr>jobs := (jobs db)(job_id \<mapsto> reconciled openaiJob job)\<rparr>"
  have u: "updateJob job_id (reconciled openaiJob) db = Some ?db1"
    using j by (rule updateJob_Some)
  have r: "job_openai_job_id (reconciled openaiJob job) = job_openai_job_id job"
    "job_status (reconciled openaiJob job) = orElse (oj_status openaiJob) (job_status job)"
    by (simp_all add: reconciled_def)
  show ?thesis
  proof (cases "updateBotFor openaiJob job ?db1")
    case None
    with Answer j h k u r show ?thesis by (simp add: GET_def)
  next
    case (Some db2)
    with Answer j h k u have g: "snd (GET apiKey answer job_id db) = db2"
      by (simp add: GET_def)
    from updateBotFor_jobs [OF Some, of job_id] r g Answer show ?thesis by auto
  qed
qed

subsection \<open>The local status mirrors the provider\<close>

text \<open>
  C4, as the claim states it, fails: a status query writes the status that the provider
  reports over the stored one, whatever the two are. A job stored as \<open>running\<close> for
  which the provider reports \<open>pending\<close> is stored as \<open>pending\<close> afterwards.
\<close>

theorem status_regresses:
  "map_option job_status (jobs chainStore ''job-2'') = Some ''running'' \<and>
   map_option job_status
     (jobs (snd (GET (Some ''key'') (reports ''pending'') ''job-2'' chainStore)) ''job-2'') =
     Some ''pending'' \<and>
   phase ''pending'' < phase ''running''"
  by code_simp

text \<open>
  C4, amended: after any sequence of status queries for a job with a provider handle,
  the stored status is the status that the provider reported last (the stored one when
  it never reported any). The stored status advances, stays or regresses as the reports
  of the provider do.
\<close>

theorem reconcileAll_status:
  assumes "jobs db job_id = Some job"
    and "truthy (job_openai_job_id job)" and "truthy apiKey"
  shows "map_option job_status (jobs (reconcileAll apiKey job_id answers db) job_id) =
           Some (lastReported (job_status job) answers)"
  using assms
proof (induction answers arbitrary: db job)
  case Nil
  then show ?case by (simp add: reconcileAll_def lastReported_def)
next
  case (Cons answer answers)
  from GET_step [OF Cons.prems, of answer] obtain job'
    where j': "jobs (snd (GET apiKey answer job_id db)) job_id = Some job'"
      and h': "job_openai_job_id job' = job_openai_job_id job"
      and s': "job_status job' =
             (case answer of
                NoAnswer \<Rightarrow> job_status job
              | Answer openaiJob \<Rightarrow> orElse (oj_status openaiJob) (job_status job))"
    by blast
  from Cons.prems(2) h' have "truthy (job_openai_job_id job')" by simp
  from Cons.IH [OF j' this Cons.prems(3)] s' show ?case
    by (simp add: reconcileAll_def lastReported_def)
qed

theorem reconcileAll_status_witness:
  "jobs chainStore ''job-2'' = Some childJob \<and>
   truthy (job_openai_job_id childJob) \<and> truthy (Some ''key'') \<and>
   map_option job_status
     (jobs (reconcileAll (Some ''key'') ''job-2''
        [reports ''running'', NoAnswer, reports ''validating_files''] chainStore) ''job-2'') =
     Some ''validating_files''"
proof -
  have h1: "jobs chainStore ''job-2'' = Some childJob"
    by (simp add: chainStore_def)
  have h2: "truthy (job_openai_job_id childJob)"
    by (simp add: childJob_def truthy_def)
  have h3: "truthy (Some ''key'')"
    by (simp add: truthy_def)
  have l: "lastReported (job_status childJob)
             [reports ''running'', NoAnswer, reports ''validating_files''] = ''validating_files''"
    by (simp add: lastReported_def reports_def orElse_def)
  show ?thesis
    using h1 h2 h3 l
      reconcileAll_status [OF h1 h2 h3,
        of "[reports ''running'', NoAnswer, reports ''validating_files'']"]
    by simp
qed

subsection \<open>Enhancement chains\<close>

text \<open>
  C6. When a status query for a job with a parent finds the job succeeded with the
  fine-tuned model \<open>M\<close>, the parent's row has \<open>M\<close> as its fine-tuned model afterwards,
  and no row other than the job's own and its parent's is changed: a grandparent keeps
  its model.
\<close>

theorem child_model_reaches_parent:
  assumes j: "jobs db job_id = Some job"
    and h: "truthy (job_openai_job_id job)" and k: "truthy apiKey"
    and s: "oj_status openaiJob = Some ''succeeded''"
    and m: "firstTruthy (oj_fine_tuned_model openaiJob) (oj_fine_tuned_model_id openaiJob) = Some M"
    and b: "bots db (job_bot_id job) = Some b"
    and p: "job_parent_job_id job = Some p" "p \<noteq> []"
    and pj: "jobs db p = Some parent"
  shows "map_option job_fine_tuned_model_id
           (jobs (snd (GET apiKey (Answer openaiJob) job_id db)) p) = Some (Some M) \<and>
         (\<forall>q. q \<noteq> p \<and> q \<noteq> job_id \<longrightarrow>
            jobs (snd (GET apiKey (Answer openaiJob) job_id db)) q = jobs db q)"
proof -
  let ?db1 = "db\<lparr>jobs := (jobs db)(job_id \<mapsto> reconciled openaiJob job)\<rparr>"
  let ?active = "\<lambda>b. b\<lparr>bot_fine_tuned_model_id := Some M, bot_model := M,
                         bot_status := ''active''\<rparr>"
  let ?db2 = "?db1\<lparr>bots := (bots ?db1)(job_bot_id job \<mapsto> ?active b)\<rparr>"
  have u: "updateJob job_id (reconciled openaiJob) db = Some ?db1"
    using j by (rule updateJob_Some)
  have t: "truthy (Some M)"
    using m by (auto simp: firstTruthy_def split: if_splits)
  have tp: "truthy (job_parent_job_id job)" "the (job_parent_job_id job) = p"
    using p by (simp_all add: truthy_def)
  have ub: "updateBot (job_bot_id job) ?active ?db1 = Some ?db2"
    using b by (simp add: updateBot_def)
  have bf: "updateBotFor openaiJob job ?db1 = Some (propagateToParent job (Some M) ?db2)"
    using s m t ub by (simp add: updateBotFor_def Let_def)
  have g: "snd (GET apiKey (Answer openaiJob) job_id db) = propagateToParent job (Some M) ?db2"
    using j h k u bf by (simp add: GET_def)
  have "jobs ?db2 p \<noteq> None" using pj by simp
  then have "map_option job_fine_tuned_model_id
               (jobs (propagateToParent job (Some M) ?db2) p) = Some (Some M)"
    using tp by (auto simp: propagateToParent_jobs)
  moreover have "\<forall>q. q \<noteq> p \<and> q \<noteq> job_id \<longrightarrow>
                   jobs (propagateToParent job (Some M) ?db2) q = jobs db q"
    using tp by (simp add: propagateToParent_jobs)
  ultimately show ?thesis using g by simp
qed

theorem child_model_reaches_parent_witness:
  "jobs chainStore ''job-2'' = Some childJob \<and>
   jobs chainStore ''job-1'' = Some parentJob \<and>
   bots chainStore ''bot-1'' = Some (supportBot\<lparr>bot_status := ''training''\<rparr>) \<and>
   map_option job_fine_tuned_model_id
     (jobs (snd (GET (Some ''key'') (succeededWith ''ft:M2'') ''job-2'' chainStore)) ''job-1'') =
     Some (Some ''ft:M2'') \<and>
   jobs (snd (GET (Some ''key'') (succeededWith ''ft:M2'') ''job-2'' chainStore)) ''job-0'' =
     Some rootJob"
proof -
  let ?oj = "\<lparr>oj_status = Some ''succeeded'', oj_fine_tuned_model = Some ''ft:M2'',
             oj_fine_tuned_model_id = None, oj_trained_tokens = Some 5000,
             oj_finished_at = Some 1700000000, oj_error = None\<rparr>"
  have h1: "jobs chainStore ''job-2'' = Some childJob"
    by (simp add: chainStore_def)
  have h2: "truthy (job_openai_job_id childJob)"
    by (simp add: childJob_def truthy_def)
  have h3: "truthy (Some ''key'')"
    by (simp add: truthy_def)
  have h4: "oj_status ?oj = Some ''succeeded''" by simp
  have h5: "firstTruthy (oj_fine_tuned_model ?oj) (oj_fine_tuned_model_id ?oj) = Some ''ft:M2''"
    by (simp add: firstTruthy_def truthy_def)
  have h6: "bots chainStore (job_bot_id childJob) = Some (supportBot\<lparr>bot_status := ''training''\<rparr>)"
    by (simp add: chainStore_def childJob_def)
  have h7: "job_parent_job_id childJob = Some ''job-1''"
    by (simp add: childJob_def)
  have h8: "''job-1'' \<noteq> []" by simp
  have h9: "jobs chainStore ''job-1'' = Some parentJob"
    by (simp add: chainStore_def)
  have r: "jobs chainStore ''job-0'' = Some rootJob"
    by (simp add: chainStore_def)
  have b: "bots chainStore ''bot-1'' = Some (supportBot\<lparr>bot_status := ''training''\<rparr>)"
    by (simp add: chainStore_def)
  show ?thesis
    using h1 h9 b r child_model_reaches_parent [OF h1 h2 h3 h4 h5 h6 h7 h8 h9]
    by (simp add: succeededWith_def)
qed

subsection \<open>Submission failures\<close>

text \<open>
  An answer with a status other than 200 fails the job with an error and makes the bot
  inactive. The error has a message, unless the error object of the provider carries
  \<open>null\<close> as its message: that member is spread over the default.
\<close>

lemma submissionError_message:
  "err_message (submissionError status body) = None \<longleftrightarrow>
   (\<exists>e. body = ErrorBody (Some e) \<and> pe_message e = Null)"
  by (auto simp: submissionError_def Let_def spreadOver_def memberOr_def
      split: error_body.splits option.splits member.splits)

lemma error_status_recorded:
  assumes "jobs db job_id = Some j" and "bots db bot_id = Some b"
  shows "submitToProvider (ErrorStatus status body) job_id bot_id db =
           (ERROR ''FINE_TUNE_JOB_CREATION_FAILED'',
            db\<lparr>jobs := (jobs db)(job_id \<mapsto> jobFailed (submissionError status body) j),
               bots := (bots db)(bot_id \<mapsto> botStatus ''inactive'' b)\<rparr>)"
  using assms by (simp add: submitToProvider_def updateJob_def updateBot_def)

text \<open>
  C5 does not hold for a 200 answer without an \<open>id\<close>: the job fails with the message
  \<open>Invalid response from OpenAI API\<close> and the error is returned, but the bot, which was
  marked as training before the request, is not made inactive, as it is for an answer
  with another status.
\<close>

theorem answer_without_id_leaves_bot_training:
  "fst (POST (answering (Status200 (SuccessBody None None))) submitRequest botStore) =
     ERROR ''FINE_TUNE_JOB_CREATION_FAILED'' \<and>
   map_option job_status
     (jobs (snd (POST (answering (Status200 (SuccessBody None None))) submitRequest botStore))
        ''job-9'') = Some ''failed'' \<and>
   map_option bot_status
     (bots (snd (POST (answering (Status200 (SuccessBody None None))) submitRequest botStore))
        ''bot-1'') = Some ''training'' \<and>
   map_option bot_status
     (bots (snd (POST (answering (ErrorStatus 400 (ErrorBody None))) submitRequest botStore))
        ''bot-1'') = Some ''inactive''"
  by code_simp

theorem answer_without_id_leaves_bot_training_witness:
  "map_option bot_status
     (bots (snd (POST (answering (Status200 (SuccessBody None None))) submitRequest botStore))
        ''bot-1'') = Some ''training''"
  using answer_without_id_leaves_bot_training [THEN conjunct2, THEN conjunct2, THEN conjunct1] .

section \<open>Properties of the model evaluator\<close>

subsection \<open>The pieces of a text are its words and, at its edges, the empty string\<close>

lemma splitWhitespace_nonempty: "splitWhitespace s \<noteq> []"
  by (induction s rule: splitWhitespace.induct) (auto split: list.splits)

lemma splitWhitespace_unfold:
  "splitWhitespace s =
     takeWhile (\<lambda>x. \<not> isWhiteSpace x) s #
     (if dropWhile (\<lambda>x. \<not> isWhiteSpace x) s = [] then []
      else splitWhitespace (dropWhile isWhiteSpace (dropWhile (\<lambda>x. \<not> isWhiteSpace x) s)))"
proof (induction s rule: splitWhitespace.induct)
  case 1
  show ?case by simp
next
  case (2 c cs)
  show ?case
  proof (cases "isWhiteSpace c")
    case True
    then show ?thesis by simp
  next
    case False
    with 2(2) show ?thesis by (simp split: list.splits)
  qed
qed

lemma wordsOf_dropWhile: "wordsOf (dropWhile isWhiteSpace s) = wordsOf s"
  by (subst (1 2) wordsOf_simps) (simp add: dropWhile_idem)

lemma wordsOf_Nil: "wordsOf [] = []"
  by (subst wordsOf_simps) simp

lemma wordsOf_word:
  assumes "s \<noteq> []" and "\<not> isWhiteSpace (hd s)"
  shows "wordsOf s =
           takeWhile (\<lambda>x. \<not> isWhiteSpace x) s # wordsOf (dropWhile (\<lambda>x. \<not> isWhiteSpace x) s)"
proof -
  from assms obtain c cs where s: "s = c # cs" and c: "\<not> isWhiteSpace c"
    by (cases s) auto
  then show ?thesis by (subst wordsOf_simps) simp
qed

lemma pieces_words:
  "set (splitWhitespace s) = set (wordsOf s) \<union> (if edged s then {[]} else {})"
proof (induction s rule: length_induct)
  case (1 s)
  let ?w = "takeWhile (\<lambda>x. \<not> isWhiteSpace x) s"
  let ?r = "dropWhile (\<lambda>x. \<not> isWhiteSpace x) s"
  let ?t = "dropWhile isWhiteSpace ?r"
  have sp: "splitWhitespace s = ?w # (if ?r = [] then [] else splitWhitespace ?t)"
    by (rule splitWhitespace_unfold)
  have s: "?w @ ?r = s" by simp
  show ?case
  proof (cases "?r = []")
    case True
    then have all: "\<forall>x \<in> set s. \<not> isWhiteSpace x"
      by (simp add: dropWhile_eq_Nil_conv)
    then have w: "?w = s" by (simp add: takeWhile_eq_all_conv)
    show ?thesis
    proof (cases "s = []")
      case True
      then show ?thesis by (simp add: wordsOf_Nil edged_def)
    next
      case False
      with all have e: "\<not> edged s" by (simp add: edged_def)
      from False all have "wordsOf s = [s]"
        using wordsOf_word [of s] True w by (simp add: wordsOf_Nil)
      with sp True w e show ?thesis by simp
    qed
  next
    case False
    then have r: "?r \<noteq> []" and hr: "isWhiteSpace (hd ?r)"
      using hd_dropWhile [of "\<lambda>x. \<not> isWhiteSpace x" s] by auto
    from r have "(if ?r = [] then [] else splitWhitespace ?t) = splitWhitespace ?t"
      by (rule if_not_P)
    with sp have sp': "splitWhitespace s = ?w # splitWhitespace ?t"
      by (simp only:)
    have "length ?t < length ?r"
      using r hr by (cases ?r) (auto simp: le_imp_less_Suc length_dropWhile_le)
    moreover have "length ?r \<le> length s" by (rule length_dropWhile_le)
    ultimately have "length ?t < length s" by simp
    with 1 have IH: "set (splitWhitespace ?t) = set (wordsOf ?t) \<union> (if edged ?t then {[]} else {})"
      by blast
    have wt: "wordsOf ?r = wordsOf ?t" by (simp add: wordsOf_dropWhile)
    have nt: "?t \<noteq> [] \<Longrightarrow> \<not> isWhiteSpace (hd ?t)"
      using hd_dropWhile [of isWhiteSpace ?r] by simp
    have lr: "last ?r = last ?t" if "?t \<noteq> []"
    proof -
      have "last (takeWhile isWhiteSpace ?r @ ?t) = last ?t"
        using that by (rule last_appendR)
      then show ?thesis by (simp only: takeWhile_dropWhile_id)
    qed
    have allr: "?t = [] \<Longrightarrow> isWhiteSpace (last ?r)"
    proof -
      assume "?t = []"
      then have a: "\<forall>x \<in> set ?r. isWhiteSpace x" by (simp only: dropWhile_eq_Nil_conv)
      have "last ?r \<in> set ?r" using r by (rule last_in_set)
      with a show ?thesis by (rule bspec)
    qed
    have "last (?w @ ?r) = last ?r"
      using r by (rule last_appendR)
    then have ls: "last s = last ?r" by (simp only: takeWhile_dropWhile_id)
    show ?thesis
    proof (cases "?w = []")
      case True
      then have "?w @ ?r = ?r" by simp
      then have "s = ?r" by (simp only: takeWhile_dropWhile_id)
      then have s_r: "?r = s" by (rule sym)
      have e: "edged s"
        using hr r unfolding s_r by (simp add: edged_def)
      have "wordsOf ?r = wordsOf s" by (simp only: s_r)
      with wt have ww: "wordsOf ?t = wordsOf s" by simp
      have "set (splitWhitespace s) = insert [] (set (splitWhitespace ?t))"
        by (simp only: sp' True list.set)
      with IH ww e show ?thesis by auto
    next
      case w: False
      then have s_ne: "s \<noteq> []" and hs: "\<not> isWhiteSpace (hd s)"
        by (cases s; auto split: if_splits)+
      have ws: "wordsOf s = ?w # wordsOf ?t"
        using wordsOf_word [OF s_ne hs] wt by simp
      have es: "edged s \<longleftrightarrow> isWhiteSpace (last s)"
        using s_ne hs by (simp only: edged_def simp_thms)
      have e: "edged s \<longleftrightarrow> edged ?t"
      proof (cases "?t = []")
        case True
        then have "edged ?t" by (simp only: edged_def simp_thms)
        moreover from allr [OF True] have "isWhiteSpace (last s)" by (simp only: ls)
        ultimately show ?thesis using es by (simp only: simp_thms)
      next
        case False
        from False nt [OF False] have "edged ?t \<longleftrightarrow> isWhiteSpace (last ?t)"
          by (simp only: edged_def simp_thms)
        moreover have "last s = last ?t"
          using ls lr [OF False] by (rule trans)
        ultimately show ?thesis using es by (simp only:)
      qed
      have "set (splitWhitespace s) = insert ?w (set (splitWhitespace ?t))"
        by (simp only: sp' list.set)
      with IH ws e show ?thesis by auto
    qed
  qed
qed

lemma isWhiteSpace_code: "isWhiteSpace c \<longleftrightarrow> (of_char c :: nat) \<in> {9, 10, 11, 12, 13, 32, 160}"
proof -
  have e: "c = d \<longleftrightarrow> (of_char c :: nat) = of_char d" for d :: char
    by auto
  show ?thesis unfolding isWhiteSpace_def by (simp add: e)
qed

lemma isWhiteSpace_toLowerChar: "isWhiteSpace (toLowerChar c) \<longleftrightarrow> isWhiteSpace c"
proof -
  let ?n = "of_char c :: nat"
  show ?thesis
  proof (cases "(65 \<le> ?n \<and> ?n \<le> 90) \<or> (192 \<le> ?n \<and> ?n \<le> 222 \<and> ?n \<noteq> 215)")
    case False
    then have "toLowerChar c = c"
      unfolding toLowerChar_def Let_def by (rule if_not_P)
    then show ?thesis by simp
  next
    case True
    then have l: "toLowerChar c = char_of (?n + 32)"
      unfolding toLowerChar_def Let_def by (rule if_P)
    from True have "(?n + 32) mod 256 = ?n + 32" by auto
    then have "(of_char (char_of (?n + 32)) :: nat) = ?n + 32"
      by (simp only: of_char_of)
    with True l show ?thesis
      by (auto simp: isWhiteSpace_code)
  qed
qed

lemma edged_toLowerCase: "edged (toLowerCase s) \<longleftrightarrow> edged s"
proof (cases "s = []")
  case True
  then show ?thesis by (simp add: edged_def toLowerCase_def)
next
  case False
  then show ?thesis
    by (simp add: edged_def toLowerCase_def hd_map last_map isWhiteSpace_toLowerChar)
qed

lemma pieceSet_splitWhitespace: "set (splitWhitespace (toLowerCase s)) = pieceSet s"
  by (simp only: pieces_words pieceSet_def wordSet_def edged_toLowerCase)

lemma pieceSet_words: "\<not> edged s \<Longrightarrow> pieceSet s = wordSet s"
  by (simp add: pieceSet_def)

lemma pieceSet_nonempty: "pieceSet s \<noteq> {}"
  using splitWhitespace_nonempty [of "toLowerCase s"]
  by (simp add: pieceSet_splitWhitespace [symmetric])

subsection \<open>Similarity is the Jaccard coefficient of the piece sets\<close>

lemma set_newSet: "set (newSet xs) = set xs"
  by (simp add: newSet_def)

lemma distinct_newSet: "distinct (newSet xs)"
  by (simp add: newSet_def)

lemma length_newSet: "length (newSet xs) = card (set xs)"
  using distinct_card [OF distinct_newSet, of xs] by (simp add: set_newSet)

lemma calculateSimilarity_jaccard:
  "calculateSimilarity str1 str2 = jaccard (pieceSet str1) (pieceSet str2)"
proof -
  let ?A = "pieceSet str1" and ?B = "pieceSet str2"
  let ?set1 = "newSet (splitWhitespace (toLowerCase str1))"
  let ?set2 = "newSet (splitWhitespace (toLowerCase str2))"
  have i: "length (newSet (filter (\<lambda>x. x \<in> set ?set2) ?set1)) = card (?A \<inter> ?B)"
  proof -
    have "set (filter (\<lambda>x. x \<in> set ?set2) ?set1) = ?A \<inter> ?B"
      by (auto simp: set_newSet pieceSet_splitWhitespace [symmetric])
    then show ?thesis by (simp add: length_newSet)
  qed
  have u: "length (newSet (?set1 @ ?set2)) = card (?A \<union> ?B)"
    by (simp add: length_newSet set_newSet pieceSet_splitWhitespace [symmetric])
  have "finite (?A \<union> ?B)" by (simp add: pieceSet_splitWhitespace [symmetric])
  moreover have "?A \<union> ?B \<noteq> {}" using pieceSet_nonempty [of str1] by simp
  ultimately have "card (?A \<union> ?B) > 0" by (simp add: card_gt_0_iff)
  with u have "length (newSet (?set1 @ ?set2)) > 0" by simp
  then have "calculateSimilarity str1 str2 =
      real (length (newSet (filter (\<lambda>x. x \<in> set ?set2) ?set1))) /
      real (length (newSet (?set1 @ ?set2)))"
    unfolding calculateSimilarity_def Let_def by (rule if_P)
  then show ?thesis
    unfolding i u jaccard_def .
qed

subsection \<open>Results of a run\<close>

lemma find_hasRole: "hasRole r ms \<Longrightarrow> \<exists>m. find (\<lambda>m. role m = r) ms = Some m"
  by (cases "find (\<lambda>m. role m = r) ms") (auto simp: hasRole_def find_None_iff)

lemma testModelWithExamples_scored:
  assumes "\<forall>ex \<in> set testExamples.
             hasRole ''user'' (messages ex) \<and> hasRole ''assistant'' (messages ex)"
    and "\<forall>n. calls n \<noteq> CallFails"
  shows "testModelWithExamples calls k testExamples =
           map (\<lambda>(n, ex). scored (inputOf ex) (expectedOf ex) (replyOf (calls n)))
             (zip [k ..< k + length testExamples] testExamples)"
  using assms(1)
proof (induction testExamples arbitrary: k)
  case Nil
  then show ?case by simp
next
  case (Cons ex rest)
  from Cons.prems obtain u a
    where u: "find (\<lambda>m. role m = ''user'') (messages ex) = Some u"
      and a: "find (\<lambda>m. role m = ''assistant'') (messages ex) = Some a"
    by (auto dest!: find_hasRole)
  from assms(2) obtain reply where c: "calls k = Replies reply"
    by (cases "calls k") auto
  have "[k ..< k + Suc (length rest)] = k # [Suc k ..< k + Suc (length rest)]"
    by (rule upt_conv_Cons) simp
  then have z: "[k ..< k + length (ex # rest)] = k # [Suc k ..< Suc k + length rest]"
    by simp
  from Cons.prems have "\<forall>ex \<in> set rest.
      hasRole ''user'' (messages ex) \<and> hasRole ''assistant'' (messages ex)" by simp
  from Cons.IH [OF this, of "Suc k"] u a c show ?case
    unfolding z by (simp add: inputOf_def expectedOf_def replyOf_def)
qed

lemma scored_fields:
  "tr_expected (scored i e p) = e" "tr_predicted (scored i e p) = p"
  "tr_similarity (scored i e p) = calculateSimilarity e p"
  "tr_correct (scored i e p) \<longleftrightarrow> 0.7 \<le> calculateSimilarity e p"
  by (simp_all add: scored_def Let_def)

lemma result_correct_iff:
  "r \<in> set (testModelWithExamples calls n testExamples) \<Longrightarrow>
   tr_correct r \<longleftrightarrow> 0.7 \<le> tr_similarity r"
proof (induction testExamples arbitrary: n)
  case Nil
  then show ?case by simp
next
  case (Cons ex rest)
  then show ?case
    by (auto simp: scored_fields errored_def split: option.splits model_call.splits)
qed

lemma accuracy_calculateMetrics:
  "testResults \<noteq> [] \<Longrightarrow>
   accuracy (calculateMetrics testResults) =
     real (length (filter tr_correct testResults)) / real (length testResults)"
  by (simp add: calculateMetrics_def Let_def)

lemma confusion_calculateMetrics:
  assumes "testResults \<noteq> []"
  shows "confusionMatrix (calculateMetrics testResults) =
     Some \<lparr>true_positives = length (filter (\<lambda>r. tr_similarity r \<ge> 0.7) testResults),
           false_positives =
             length (filter (\<lambda>r. tr_similarity r < 0.7 \<and> tr_correct r) testResults),
           false_negatives =
             length (filter (\<lambda>r. tr_similarity r \<ge> 0.7 \<and> \<not> tr_correct r) testResults),
           true_negatives =
             int (length testResults) -
             int (length (filter (\<lambda>r. tr_similarity r \<ge> 0.7) testResults)) -
             int (length (filter (\<lambda>r. tr_similarity r < 0.7 \<and> tr_correct r) testResults)) -
             int (length (filter (\<lambda>r. tr_similarity r \<ge> 0.7 \<and> \<not> tr_correct r) testResults))\<rparr>"
  using assms by (simp add: calculateMetrics_def Let_def)

lemma precision_calculateMetrics:
  assumes "testResults \<noteq> []"
    and "filter (\<lambda>r. tr_similarity r < 0.7 \<and> tr_correct r) testResults = []"
    and "filter (\<lambda>r. tr_similarity r \<ge> 0.7 \<and> \<not> tr_correct r) testResults = []"
  shows "precision (calculateMetrics testResults) =
           (if filter (\<lambda>r. tr_similarity r \<ge> 0.7) testResults = [] then 0 else 1)"
    and "recall (calculateMetrics testResults) =
           (if filter (\<lambda>r. tr_similarity r \<ge> 0.7) testResults = [] then 0 else 1)"
    and "f1Score (calculateMetrics testResults) =
           (if filter (\<lambda>r. tr_similarity r \<ge> 0.7) testResults = [] then 0 else 1)"
  using assms by (simp_all add: calculateMetrics_def Let_def)

text \<open>
  C9 does not hold for a text with white space at an edge. The evaluator is written for
  the overlap of words (\<open>words1\<close>, \<open>words2\<close>, ``simple word overlap''), but it splits the
  untrimmed text, and splitting such a text at white space yields the empty string as one
  more piece. For the expected text \<open>hello\<close> and the predicted text \<open>hello\<close> followed by
  a space the word sets are equal, with Jaccard coefficient 1, while the similarity that
  the evaluator computes is one half, and the example is marked incorrect. For the same
  reason the union is never empty and the guard of the quotient never applies: two empty
  texts, which have no words, score 1.
\<close>

theorem similarity_counts_empty_piece:
  "jaccard (wordSet ''hello'') (wordSet ''hello '') = 1 \<and>
   map tr_similarity (testModelWithExamples trailingSpace 0 [helloExample]) = [1 / 2] \<and>
   map tr_correct (testModelWithExamples trailingSpace 0 [helloExample]) = [False] \<and>
   wordSet [] = {} \<and> calculateSimilarity [] [] = 1"
  by code_simp

text \<open>
  What the evaluator computes, and where it is the overlap of words. In a run over test
  examples that all have a user and an assistant message and whose model calls all
  succeed, there is one result per example; its similarity is
  the Jaccard coefficient of the piece sets of the expected and the predicted text (the
  words of the lower-cased text and, when the text is empty or starts or ends with white
  space, the empty string), which is the Jaccard coefficient of the word sets when
  neither text is edged; the result is marked correct exactly when the similarity is at
  least 0.7; and the accuracy is the number of correct results divided by the number of
  results, which is 0.7 for 7 correct results out of 10.
\<close>

theorem evaluation_scores:
  assumes ex: "\<forall>ex \<in> set testExamples.
                 hasRole ''user'' (messages ex) \<and> hasRole ''assistant'' (messages ex)"
    and ok: "\<forall>n. calls n \<noteq> CallFails"
    and ne: "testExamples \<noteq> []"
  shows "let results = testModelWithExamples calls 0 testExamples
         in length results = length testExamples \<and>
            (\<forall>i < length testExamples.
               tr_expected (results ! i) = expectedOf (testExamples ! i) \<and>
               tr_predicted (results ! i) = replyOf (calls i) \<and>
               tr_similarity (results ! i) =
                 jaccard (pieceSet (expectedOf (testExamples ! i))) (pieceSet (replyOf (calls i))) \<and>
               (\<not> edged (expectedOf (testExamples ! i)) \<and> \<not> edged (replyOf (calls i)) \<longrightarrow>
                  tr_similarity (results ! i) =
                    jaccard (wordSet (expectedOf (testExamples ! i)))
                      (wordSet (replyOf (calls i)))) \<and>
               (tr_correct (results ! i) \<longleftrightarrow> 0.7 \<le> tr_similarity (results ! i))) \<and>
            accuracy (calculateMetrics results) =
              real (length (filter tr_correct results)) / real (length results) \<and>
            (length results = 10 \<and> length (filter tr_correct results) = 7 \<longrightarrow>
               accuracy (calculateMetrics results) = 0.7)"
proof -
  let ?results = "testModelWithExamples calls 0 testExamples"
  have r: "?results =
           map (\<lambda>(n, ex). scored (inputOf ex) (expectedOf ex) (replyOf (calls n)))
             (zip [0 ..< 0 + length testExamples] testExamples)"
    using ex ok by (rule testModelWithExamples_scored)
  then have len: "length ?results = length testExamples" by simp
  have nth: "?results ! i =
               scored (inputOf (testExamples ! i)) (expectedOf (testExamples ! i)) (replyOf (calls i))"
    if "i < length testExamples" for i
    using that unfolding r by simp
  have each: "\<forall>i < length testExamples.
               tr_expected (?results ! i) = expectedOf (testExamples ! i) \<and>
               tr_predicted (?results ! i) = replyOf (calls i) \<and>
               tr_similarity (?results ! i) =
                 jaccard (pieceSet (expectedOf (testExamples ! i))) (pieceSet (replyOf (calls i))) \<and>
               (\<not> edged (expectedOf (testExamples ! i)) \<and> \<not> edged (replyOf (calls i)) \<longrightarrow>
                  tr_similarity (?results ! i) =
                    jaccard (wordSet (expectedOf (testExamples ! i)))
                      (wordSet (replyOf (calls i)))) \<and>
               (tr_correct (?results ! i) \<longleftrightarrow> 0.7 \<le> tr_similarity (?results ! i))"
    by (simp add: nth scored_fields calculateSimilarity_jaccard pieceSet_words)
  from ne len have "?results \<noteq> []" by auto
  then have acc: "accuracy (calculateMetrics ?results) =
                    real (length (filter tr_correct ?results)) / real (length ?results)"
    by (rule accuracy_calculateMetrics)
  then have seven: "length ?results = 10 \<and> length (filter tr_correct ?results) = 7 \<longrightarrow>
                      accuracy (calculateMetrics ?results) = 0.7"
    by simp
  from len each acc seven show ?thesis
    unfolding Let_def by blast
qed

theorem evaluation_scores_witness:
  "(\<forall>n. sevenRight n \<noteq> CallFails) \<and> tenExamples \<noteq> [] \<and>
   length (testModelWithExamples sevenRight 0 tenExamples) = 10 \<and>
   length (filter tr_correct (testModelWithExamples sevenRight 0 tenExamples)) = 7 \<and>
   accuracy (calculateMetrics (testModelWithExamples sevenRight 0 tenExamples)) = 0.7"
proof -
  have h1: "\<forall>ex \<in> set tenExamples.
      hasRole ''user'' (messages ex) \<and> hasRole ''assistant'' (messages ex)"
    by (simp add: tenExamples_def hasRole_def)
  have h2: "\<forall>n. sevenRight n \<noteq> CallFails"
    by (simp add: sevenRight_def)
  have h3: "tenExamples \<noteq> []"
    by (simp add: tenExamples_def)
  have c: "length (filter tr_correct (testModelWithExamples sevenRight 0 tenExamples)) = 7"
    by code_simp
  show ?thesis
    using h2 h3 c evaluation_scores [OF h1 h2 h3]
    by (simp add: Let_def tenExamples_def)
qed

text \<open>
  C10. For the results of a run, whatever the model calls did, no result counts as a
  false positive or as a false negative; precision, recall and F1 are all 1 when some
  result has a similarity of at least 0.7, and all 0 otherwise.
\<close>

theorem precision_recall_degenerate:
  assumes "testModelWithExamples calls n testExamples \<noteq> []"
  shows "let results = testModelWithExamples calls n testExamples;
             m = calculateMetrics results
         in map_option false_positives (confusionMatrix m) = Some 0 \<and>
            map_option false_negatives (confusionMatrix m) = Some 0 \<and>
            ((\<exists>r \<in> set results. 0.7 \<le> tr_similarity r) \<longrightarrow>
               precision m = 1 \<and> recall m = 1 \<and> f1Score m = 1) \<and>
            (\<not> (\<exists>r \<in> set results. 0.7 \<le> tr_similarity r) \<longrightarrow>
               precision m = 0 \<and> recall m = 0 \<and> f1Score m = 0)"
proof -
  let ?results = "testModelWithExamples calls n testExamples"
  have fp: "filter (\<lambda>r. tr_similarity r < 0.7 \<and> tr_correct r) ?results = []"
    by (auto simp: filter_empty_conv result_correct_iff)
  have fn: "filter (\<lambda>r. tr_similarity r \<ge> 0.7 \<and> \<not> tr_correct r) ?results = []"
    by (auto simp: filter_empty_conv result_correct_iff)
  have tp: "filter (\<lambda>r. tr_similarity r \<ge> 0.7) ?results = [] \<longleftrightarrow>
            \<not> (\<exists>r \<in> set ?results. 0.7 \<le> tr_similarity r)"
    by (auto simp: filter_empty_conv)
  have cm: "map_option false_positives (confusionMatrix (calculateMetrics ?results)) = Some 0"
    "map_option false_negatives (confusionMatrix (calculateMetrics ?results)) = Some 0"
    unfolding confusion_calculateMetrics [OF assms] fp fn by simp_all
  note three = precision_calculateMetrics [OF assms fp fn]
  show ?thesis
    unfolding Let_def using cm three tp by simp
qed

theorem precision_recall_degenerate_witness:
  "testModelWithExamples sevenRight 0 tenExamples \<noteq> [] \<and>
   (\<exists>r \<in> set (testModelWithExamples sevenRight 0 tenExamples). 0.7 \<le> tr_similarity r) \<and>
   map_option false_positives
     (confusionMatrix (calculateMetrics (testModelWithExamples sevenRight 0 tenExamples))) = Some 0 \<and>
   map_option false_negatives
     (confusionMatrix (calculateMetrics (testModelWithExamples sevenRight 0 tenExamples))) = Some 0 \<and>
   precision (calculateMetrics (testModelWithExamples sevenRight 0 tenExamples)) = 1 \<and>
   recall (calculateMetrics (testModelWithExamples sevenRight 0 tenExamples)) = 1 \<and>
   f1Score (calculateMetrics (testModelWithExamples sevenRight 0 tenExamples)) = 1"
proof -
  have h: "testModelWithExamples sevenRight 0 tenExamples \<noteq> []"
    by code_simp
  have e: "\<exists>r \<in> set (testModelWithExamples sevenRight 0 tenExamples). 0.7 \<le> tr_similarity r"
    by code_simp
  show ?thesis
    using h e precision_recall_degenerate [OF h] by (simp add: Let_def)
qed

end
